theory Spec2Isabelle
  imports Complex_Main
begin

section \<open>Masked arrays\<close>

text \<open>
  The analysis engine works on numpy masked arrays of floats.  A masked array is modelled as
  a list of optional reals: \<open>None\<close> is a masked (invalid) sample, \<open>Some v\<close> a valid sample
  of value \<open>v\<close>.  Floating-point numbers are idealised as reals throughout; every concrete
  evaluation below uses values that are exactly representable as binary floats.
\<close>

type_synonym marray = "real option list"

datatype error = ValueError | IndexError

text \<open>\<open>np_ma_zeros_like(a)\<close>: unmasked zeros of the shape of \<open>a\<close>.\<close>

definition np_ma_zeros_like :: "marray \<Rightarrow> marray" where
  "np_ma_zeros_like a = replicate (length a) (Some 0)"

text \<open>\<open>np.ma.count(a)\<close>: the number of unmasked samples.\<close>

definition ma_count :: "marray \<Rightarrow> nat" where
  "ma_count a = length (filter (\<lambda>x. x \<noteq> None) a)"

text \<open>\<open>a - c\<close> for a scalar \<open>c\<close>: the mask is kept.\<close>

definition ma_sub_scalar :: "marray \<Rightarrow> real \<Rightarrow> marray" where
  "ma_sub_scalar a c = map (map_option (\<lambda>v. v - c)) a"

text \<open>\<open>a - b\<close> elementwise: a sample is masked when either operand is.\<close>

fun opt_sub :: "real option \<Rightarrow> real option \<Rightarrow> real option" where
  "opt_sub (Some u) (Some v) = Some (u - v)"
| "opt_sub _ _ = None"

definition ma_sub :: "marray \<Rightarrow> marray \<Rightarrow> marray" where
  "ma_sub a b = map (\<lambda>(x, y). opt_sub x y) (zip a b)"

text \<open>\<open>np.ma.maximum(a, 0.0)\<close>.\<close>

definition ma_maximum0 :: "marray \<Rightarrow> marray" where
  "ma_maximum0 a = map (map_option (max 0)) a"

text \<open>\<open>np.ma.masked_outside(a, lo, hi)\<close>: additionally masks the samples \<open>v < lo\<close> or
  \<open>v > hi\<close>.\<close>

definition masked_outside :: "marray \<Rightarrow> real \<Rightarrow> real \<Rightarrow> marray" where
  "masked_outside a lo hi =
     map (\<lambda>x. case x of None \<Rightarrow> None
                | Some v \<Rightarrow> if v < lo \<or> v > hi then None else Some v) a"

text \<open>The valid samples of an array, in order.\<close>

definition compressed :: "marray \<Rightarrow> real list" where
  "compressed a = concat (map (\<lambda>x. case x of None \<Rightarrow> [] | Some v \<Rightarrow> [v]) a)"

text \<open>\<open>np.ma.mean(a)\<close>: the mean of the valid samples, masked when there is none.\<close>

definition ma_mean :: "marray \<Rightarrow> real option" where
  "ma_mean a = (let vs = compressed a in
     if vs = [] then None else Some (sum_list vs / real (length vs)))"

text \<open>\<open>np.ma.min(a)\<close> of a non-empty array: the least valid sample, masked when there is
  none.  (On an empty array numpy raises; the one caller that can pass an empty array,
  \<open>shift_alt_std\<close>, treats that case itself.)\<close>

definition ma_min :: "marray \<Rightarrow> real option" where
  "ma_min a = (let vs = compressed a in
     if vs = [] then None else Some (fold min (tl vs) (hd vs)))"

text \<open>
  \<open>np.ma.clump_unmasked(a)\<close>: the maximal runs of unmasked samples, each as a half-open
  slice \<open>(start, stop)\<close>, from left to right.  The scan carries the index of the current
  sample and the start of the run that is open, if any.
\<close>

fun clump_scan :: "nat \<Rightarrow> nat option \<Rightarrow> marray \<Rightarrow> (nat \<times> nat) list" where
  "clump_scan i None [] = []"
| "clump_scan i (Some s) [] = [(s, i)]"
| "clump_scan i None (None # xs) = clump_scan (Suc i) None xs"
| "clump_scan i None (Some v # xs) = clump_scan (Suc i) (Some i) xs"
| "clump_scan i (Some s) (None # xs) = (s, i) # clump_scan (Suc i) None xs"
| "clump_scan i (Some s) (Some v # xs) = clump_scan (Suc i) (Some s) xs"

definition clump_unmasked :: "marray \<Rightarrow> (nat \<times> nat) list" where
  "clump_unmasked a = clump_scan 0 None a"

text \<open>
  Slicing \<open>a[i:j]\<close> with non-negative bounds (Python clips both bounds to the length), the
  slice assignment \<open>a[i:j] = vs\<close> where \<open>vs\<close> has the length of \<open>a[i:j]\<close>, and the
  broadcast assignment \<open>a[i:j] = v\<close>.  An assignment never changes the length.
\<close>

definition py_slice :: "'a list \<Rightarrow> nat \<Rightarrow> nat \<Rightarrow> 'a list" where
  "py_slice a i j = take (j - i) (drop i a)"

definition set_slice :: "'a list \<Rightarrow> nat \<Rightarrow> nat \<Rightarrow> 'a list \<Rightarrow> 'a list" where
  "set_slice a i j vs =
     map (\<lambda>k. if i \<le> k \<and> k < j then vs ! (k - i) else a ! k) [0..<length a]"

definition fill_slice :: "'a list \<Rightarrow> nat \<Rightarrow> nat \<Rightarrow> 'a \<Rightarrow> 'a list" where
  "fill_slice a i j v =
     map (\<lambda>k. if i \<le> k \<and> k < j then v else a ! k) [0..<length a]"

section \<open>Library helpers used by the compositor\<close>

text \<open>
  Modelled from the spec: \<open>first_valid_sample\<close> of \<open>analysis_engine.library\<close> is not in
  the sources.  The stitching "finds the first valid sample" of an array: the helper gives
  the index and the value of the first unmasked sample, and \<open>(None, None)\<close> (here \<open>None\<close>)
  when every sample is masked.
\<close>

fun first_valid_from :: "nat \<Rightarrow> marray \<Rightarrow> (nat \<times> real) option" where
  "first_valid_from i [] = None"
| "first_valid_from i (None # xs) = first_valid_from (Suc i) xs"
| "first_valid_from i (Some v # xs) = Some (i, v)"

definition first_valid_sample :: "marray \<Rightarrow> (nat \<times> real) option" where
  "first_valid_sample a = first_valid_from 0 a"

text \<open>
  Modelled from the spec: \<open>slices_not\<close> of \<open>analysis_engine.library\<close> is not in the
  sources.  It gives the "pressure-only segments": the maximal runs of indices between
  \<open>begin_at\<close> and \<open>end_at\<close> that lie in none of the given slices.
\<close>

definition slices_not :: "(nat \<times> nat) list \<Rightarrow> nat \<Rightarrow> nat \<Rightarrow> (nat \<times> nat) list" where
  "slices_not slice_list begin_at end_at =
     map (\<lambda>(a, b). (a + begin_at, b + begin_at))
       (clump_unmasked
          (map (\<lambda>k. if list_ex (\<lambda>(a, b). a \<le> k \<and> k < b) slice_list then None else Some 0)
               [begin_at..<end_at]))"

section \<open>The ground-relative compositor\<close>

datatype mode = Land | OverGnd | High

text \<open>
  \<open>shift_alt_std\<close>: the pressure altitude shifted to the liftoff point.  The curvature
  analysis of the \<open>try\<close> block uses \<open>index_at_value\<close>, \<open>peak_curvature\<close>, \<open>repair_mask\<close>
  and \<open>coreg\<close>, none of which is in the sources; it is the parameter \<open>liftoff\<close>, which
  gives \<open>None\<close> when the block raises (then the bare \<open>except\<close> takes the minimum of the
  array) and otherwise the sample \<open>pit\<close>, itself possibly masked.  Subtracting a masked
  scalar masks the whole result.  On an empty array the block always raises
  (\<open>alt_std[0]\<close>), and \<open>np.ma.min\<close> of an empty array raises \<open>ValueError\<close> in the handler:
  the exception leaves \<open>shift_alt_std\<close>.
\<close>

definition shift_alt_std ::
  "(marray \<Rightarrow> real option option) \<Rightarrow> marray \<Rightarrow> error + marray" where
  "shift_alt_std liftoff alt_std =
     (if alt_std = [] then Inl ValueError
      else
        (let pit = (case liftoff alt_std of Some p \<Rightarrow> p | None \<Rightarrow> ma_min alt_std) in
         case pit of
           None \<Rightarrow> Inr (replicate (length alt_std) None)
         | Some p \<Rightarrow> Inr (ma_maximum0 (ma_sub_scalar alt_std p))))"

text \<open>
  \<open>link_baro_rad_fwd\<close> and \<open>link_baro_rad_rev\<close>: a pressure-only section that starts where
  the radio section stops is stitched forwards, one that stops where the radio section
  starts is stitched backwards.  A section is the pair \<open>(start, stop)\<close> of its slice.  The
  slice assignments \<open>alt_result[begin_index:]\<close> and \<open>alt_result[:end_index]\<close> run to the end
  and from the start of the whole array.  \<open>max(end_index - 60, 0)\<close> is the subtraction on
  natural numbers.
\<close>

definition link_baro_rad_fwd ::
  "nat \<times> nat \<Rightarrow> nat \<times> nat \<Rightarrow> marray \<Rightarrow> marray \<Rightarrow> marray \<Rightarrow> marray" where
  "link_baro_rad_fwd baro_section ralt_section alt_rad alt_std alt_result =
     (let begin_index = fst baro_section in
      if snd ralt_section = begin_index then
        (let start_plus_60 = min (begin_index + 60) (length alt_std);
             alt_diff = ma_sub (py_slice alt_std begin_index start_plus_60)
                               (py_slice alt_rad begin_index start_plus_60)
         in case first_valid_sample alt_diff of
              None \<Rightarrow>
                set_slice alt_result begin_index (length alt_result)
                  (ma_sub_scalar (py_slice alt_std begin_index (length alt_std)) 0)
            | Some (slip, up_diff) \<Rightarrow>
                (let alt_result1 = set_slice alt_result begin_index (begin_index + slip)
                                     (py_slice alt_rad begin_index (begin_index + slip));
                     begin_index1 = begin_index + slip
                 in set_slice alt_result1 begin_index1 (length alt_result1)
                      (ma_sub_scalar (py_slice alt_std begin_index1 (length alt_std)) up_diff)))
      else alt_result)"

definition link_baro_rad_rev ::
  "nat \<times> nat \<Rightarrow> nat \<times> nat \<Rightarrow> marray \<Rightarrow> marray \<Rightarrow> marray \<Rightarrow> marray" where
  "link_baro_rad_rev baro_section ralt_section alt_rad alt_std alt_result =
     (let end_index = snd baro_section in
      if fst ralt_section = end_index then
        (let end_minus_60 = end_index - 60;
             alt_diff = ma_sub (py_slice alt_std end_minus_60 end_index)
                               (py_slice alt_rad end_minus_60 end_index)
         in case first_valid_sample (rev alt_diff) of
              None \<Rightarrow>
                set_slice alt_result 0 end_index
                  (ma_sub_scalar (py_slice alt_std 0 end_index) 0)
            | Some (slip, up_diff) \<Rightarrow>
                (let alt_result1 = set_slice alt_result (end_index - slip) end_index
                                     (py_slice alt_rad (end_index - slip) end_index);
                     end_index1 = end_index - slip
                 in set_slice alt_result1 0 end_index1
                      (ma_sub_scalar (py_slice alt_std 0 end_index1) up_diff)))
      else alt_result)"

text \<open>The test \<open>np.ma.mean(...) > 10000\<close>; a masked mean is not greater.\<close>

definition mean_error_exceeds :: "marray \<Rightarrow> marray \<Rightarrow> nat \<times> nat \<Rightarrow> bool" where
  "mean_error_exceeds alt_std alt_rad_aal ralt_section =
     (case ma_mean (ma_sub (py_slice alt_std (fst ralt_section) (snd ralt_section))
                           (py_slice alt_rad_aal (fst ralt_section) (snd ralt_section))) of
        None \<Rightarrow> False
      | Some m \<Rightarrow> m > 10000)"

text \<open>The inner loop over the pressure-only sections: forward link, then reverse link.\<close>

definition link_all ::
  "(nat \<times> nat) list \<Rightarrow> nat \<times> nat \<Rightarrow> marray \<Rightarrow> marray \<Rightarrow> marray \<Rightarrow> marray" where
  "link_all baro_sections ralt_section alt_rad_aal alt_std alt_result =
     fold (\<lambda>baro_section res.
             link_baro_rad_rev baro_section ralt_section alt_rad_aal alt_std
               (link_baro_rad_fwd baro_section ralt_section alt_rad_aal alt_std res))
          baro_sections alt_result"

text \<open>The outer loop over the radio sections, with its \<open>continue\<close>.\<close>

definition stitch_step ::
  "(nat \<times> nat) list \<Rightarrow> marray \<Rightarrow> marray \<Rightarrow> nat \<times> nat \<Rightarrow> marray \<Rightarrow> marray" where
  "stitch_step baro_sections alt_rad_aal alt_std ralt_section alt_result =
     (if mean_error_exceeds alt_std alt_rad_aal ralt_section then alt_result
      else link_all baro_sections ralt_section alt_rad_aal alt_std
             (set_slice alt_result (fst ralt_section) (snd ralt_section)
                (py_slice alt_rad_aal (fst ralt_section) (snd ralt_section))))"

definition stitch ::
  "(nat \<times> nat) list \<Rightarrow> marray \<Rightarrow> marray \<Rightarrow> marray \<Rightarrow> marray" where
  "stitch ralt_sections alt_rad_aal alt_std alt_result =
     fold (stitch_step (slices_not ralt_sections 0 (length alt_std)) alt_rad_aal alt_std)
          ralt_sections alt_result"

text \<open>\<open>np.ma.max(alt_rad[y] > BOUNCED_LANDING_THRESHOLD)\<close>: some valid sample of the
  section exceeds the threshold.\<close>

definition any_above :: "marray \<Rightarrow> real \<Rightarrow> nat \<times> nat \<Rightarrow> bool" where
  "any_above alt_rad thr y =
     list_ex (\<lambda>x. case x of None \<Rightarrow> False | Some v \<Rightarrow> v > thr)
             (py_slice alt_rad (fst y) (snd y))"

text \<open>
  \<open>AltitudeAAL.compute_aal\<close>.  \<open>thr\<close> is \<open>BOUNCED_LANDING_THRESHOLD\<close> of the settings
  module, which is not in the sources.  \<open>bounce_sections[0]\<close> on an empty list raises
  \<open>IndexError\<close>; an exception of \<open>shift_alt_std\<close> propagates.
\<close>

definition compute_aal ::
  "(marray \<Rightarrow> real option option) \<Rightarrow> real \<Rightarrow> mode \<Rightarrow> marray \<Rightarrow> real \<Rightarrow> real
     \<Rightarrow> marray option \<Rightarrow> error + marray" where
  "compute_aal liftoff thr md alt_std low_hb high_gnd alt_rad_opt =
     (let alt_result = np_ma_zeros_like alt_std;
          no_rad = (if md \<noteq> Land then Inr (ma_sub_scalar alt_std high_gnd)
                    else shift_alt_std liftoff alt_std)
      in case alt_rad_opt of
           None \<Rightarrow> no_rad
         | Some alt_rad \<Rightarrow>
             if ma_count alt_rad = 0 then no_rad
             else if md = OverGnd \<and> low_hb - high_gnd > 100 then
               Inr (ma_sub_scalar alt_std high_gnd)
             else
               (let alt_rad_aal = ma_maximum0 alt_rad;
                    ralt_sections = clump_unmasked (masked_outside alt_rad_aal (1 / 10) 100)
                in if ralt_sections = [] then shift_alt_std liftoff alt_std
                   else if md = Land then
                     (let bounce_sections = filter (any_above alt_rad thr) ralt_sections
                      in if bounce_sections = [] then Inl IndexError
                         else
                           (let bounce_end = fst (hd bounce_sections);
                                hundred_feet = snd (last bounce_sections);
                                alt_result1 = set_slice alt_result bounce_end hundred_feet
                                                (py_slice alt_rad_aal bounce_end hundred_feet);
                                alt_result2 = fill_slice alt_result1 0 bounce_end (Some 0)
                            in Inr (stitch [(0, hundred_feet)] alt_rad_aal alt_std alt_result2)))
                   else Inr (stitch ralt_sections alt_rad_aal alt_std alt_result)))"

section \<open>Stitching: what a handover is\<close>




section \<open>Python slices\<close>

text \<open>
  A Python slice object with step \<open>None\<close> (\<open>Fwd start stop\<close>) or step \<open>-1\<close>
  (\<open>Rev start stop\<close>); no other step occurs.  \<open>slice_indices\<close> lists the indices the slice
  selects in a sequence of length \<open>n\<close>, in order, as \<open>slice.indices\<close> computes them:
  a negative bound counts from the end, and bounds are clipped.
\<close>

datatype pyslice = Fwd "int option" "int option" | Rev "int option" "int option"

definition adjust :: "int \<Rightarrow> int \<Rightarrow> int \<Rightarrow> int \<Rightarrow> int" where
  "adjust len lo hi i =
     (let j = (if i < 0 then i + len else i) in if j < lo then lo else if j > hi then hi else j)"

fun slice_indices :: "pyslice \<Rightarrow> nat \<Rightarrow> nat list" where
  "slice_indices (Fwd start stop) n =
     (let len = int n;
          lo = (case start of None \<Rightarrow> 0 | Some i \<Rightarrow> adjust len 0 len i);
          hi = (case stop of None \<Rightarrow> len | Some i \<Rightarrow> adjust len 0 len i)
      in map nat [lo..hi - 1])"
| "slice_indices (Rev start stop) n =
     (let len = int n;
          hi = (case start of None \<Rightarrow> len - 1 | Some i \<Rightarrow> adjust len (- 1) (len - 1) i);
          lo = (case stop of None \<Rightarrow> - 1 | Some i \<Rightarrow> adjust len (- 1) (len - 1) i)
      in rev (map nat [lo + 1..hi]))"

text \<open>\<open>a[s]\<close> and \<open>a[s] = vs\<close> for a slice object \<open>s\<close>; \<open>vs\<close> has the length of \<open>a[s]\<close>.\<close>

definition get_slice :: "'a list \<Rightarrow> pyslice \<Rightarrow> 'a list" where
  "get_slice a s = map (\<lambda>i. a ! i) (slice_indices s (length a))"

definition put_slice :: "'a list \<Rightarrow> pyslice \<Rightarrow> 'a list \<Rightarrow> 'a list" where
  "put_slice a s vs = fold (\<lambda>(i, v) b. b[i := v]) (zip (slice_indices s (length a)) vs) a"

section \<open>Dips\<close>

text \<open>
  A dip is a dictionary with the keys \<open>type\<close>, \<open>slice\<close>, \<open>alt_std\<close> and
  \<open>highest_ground\<close>.
\<close>

record dip =
  dip_type :: mode
  dip_slice :: pyslice
  dip_alt_std :: real
  dip_highest_ground :: real

text \<open>The slice of a \<open>Fast\<close> section: \<open>slice(start, stop)\<close>, either bound possibly \<open>None\<close>.\<close>

record qslice =
  q_start :: "nat option"
  q_stop :: "nat option"

definition q_slice :: "qslice \<Rightarrow> pyslice" where
  "q_slice quick = Fwd (map_option int (q_start quick)) (map_option int (q_stop quick))"

text \<open>\<open>np.ma.argmin(a)\<close>: the index of the first least valid sample.\<close>

definition ma_argmin :: "marray \<Rightarrow> nat" where
  "ma_argmin a = (case ma_min a of None \<Rightarrow> 0
                  | Some m \<Rightarrow> length (takeWhile (\<lambda>x. x \<noteq> Some m) a))"

text \<open>The start of a slice object, as stored.\<close>

fun slice_start :: "pyslice \<Rightarrow> int option" where
  "slice_start (Fwd a b) = a"
| "slice_start (Rev a b) = a"

text \<open>
  A down and up section between the extrema \<open>n\<close> and \<open>n + 2\<close>.  \<open>ext\<close> is the list of the
  extrema, each an index into the whole array and a value.  \<open>radio_in_section\<close> is the test
  "radio altimeter data both supplied and valid in this range"; \<open>section_hg_max\<close> gives
  the pressure altitude at the least radio altitude of the section and \<open>hg_max\<close>, their
  difference there, or \<open>None\<close> when \<open>hg_max\<close> is masked.  With valid radio altitude a dip of
  type \<open>over_gnd\<close> is appended, unless \<open>hg_max\<close> is masked: then nothing is appended.
  Without, the section is joined onto a preceding dip of type \<open>high\<close>, or appended as a new
  one.  The index of the least radio altitude lies within the section, hence within both
  arrays, which have the same length.
\<close>

definition section_hg_max :: "marray \<Rightarrow> marray \<Rightarrow> (nat \<times> real) list \<Rightarrow> nat \<Rightarrow> (real \<times> real) option" where
  "section_hg_max alt_std r ext n =
     (let down_up = Fwd (Some (int (fst (ext ! n)))) (Some (int (fst (ext ! (n + 2)))));
          arg_hg_max = ma_argmin (get_slice r down_up) + fst (ext ! n)
      in case (alt_std ! arg_hg_max, r ! arg_hg_max) of
           (Some low, Some rad) \<Rightarrow> Some (low, low - rad)
         | _ \<Rightarrow> None)"

definition radio_in_section :: "marray option \<Rightarrow> (nat \<times> real) list \<Rightarrow> nat \<Rightarrow> bool" where
  "radio_in_section alt_rad ext n =
     (case alt_rad of
        None \<Rightarrow> False
      | Some r \<Rightarrow> ma_count (get_slice r (Fwd (Some (int (fst (ext ! n))))
                                            (Some (int (fst (ext ! (n + 2))))))) > 0)"

definition down_up_section ::
  "marray \<Rightarrow> marray option \<Rightarrow> (nat \<times> real) list \<Rightarrow> nat \<Rightarrow> dip list \<Rightarrow> dip list" where
  "down_up_section alt_std alt_rad ext n dips =
     (let alt_idx = fst (ext ! n);
          next_alt = snd (ext ! (n + 1));
          down_up = Fwd (Some (int alt_idx)) (Some (int (fst (ext ! (n + 2)))))
      in case (if radio_in_section alt_rad ext n then alt_rad else None) of
           Some r \<Rightarrow>
             (case section_hg_max alt_std r ext n of
                Some (low, hg_max) \<Rightarrow>
                  dips @ [\<lparr>dip_type = OverGnd, dip_slice = down_up,
                           dip_alt_std = low, dip_highest_ground = hg_max\<rparr>]
              | None \<Rightarrow> dips)
         | None \<Rightarrow>
         if dips \<noteq> [] \<and> dip_type (last dips) = High then
           butlast dips @
             [(last dips)\<lparr>dip_slice := Fwd (slice_start (dip_slice (last dips)))
                                           (Some (int (fst (ext ! (n + 2))))),
                          dip_alt_std := min (dip_alt_std (last dips)) next_alt\<rparr>]
         else
           dips @ [\<lparr>dip_type = High, dip_slice = down_up,
                    dip_alt_std = next_alt, dip_highest_ground = next_alt\<rparr>])"

text \<open>
  The \<open>while\<close> loop of \<open>AltitudeAAL.derive\<close> that builds the dips of one \<open>Fast\<close> section.
  A peak where the data should dip raises \<open>ValueError\<close>.
\<close>

function build_dips ::
  "qslice \<Rightarrow> marray \<Rightarrow> marray option \<Rightarrow> (nat \<times> real) list \<Rightarrow> nat \<Rightarrow> dip list
     \<Rightarrow> error + dip list" where
  "build_dips quick alt_std alt_rad ext n dips =
     (if n + 1 < length ext then
        (let alt = snd (ext ! n);
             alt_idx = fst (ext ! n);
             next_alt = snd (ext ! (n + 1));
             next_alt_idx = fst (ext ! (n + 1))
         in if next_alt > alt then
              build_dips quick alt_std alt_rad ext (n + 1)
                (dips @ [\<lparr>dip_type = Land,
                          dip_slice = Fwd (map_option int (q_start quick))
                                          (Some (int next_alt_idx)),
                          dip_alt_std = alt, dip_highest_ground = alt\<rparr>])
            else if n + 2 \<ge> length ext then
              build_dips quick alt_std alt_rad ext (n + 1)
                (dips @ [\<lparr>dip_type = Land,
                          dip_slice = Rev (map_option int (q_stop quick))
                                          (Some (int alt_idx - 1)),
                          dip_alt_std = next_alt, dip_highest_ground = next_alt\<rparr>])
            else if snd (ext ! (n + 2)) > next_alt then
              build_dips quick alt_std alt_rad ext (n + 2)
                (down_up_section alt_std alt_rad ext n dips)
            else Inl ValueError)
      else Inr dips)"
  by pat_completeness auto
termination
  by (relation "measure (\<lambda>(quick, alt_std, alt_rad, ext, n, dips). length ext - n)") auto

text \<open>
  The pass over the dips of type \<open>high\<close>.  The loop updates the dictionaries in place, in
  order, so the dip before the current one is read as already updated.
\<close>

definition post_pass_step :: "dip list \<Rightarrow> nat \<Rightarrow> dip list" where
  "post_pass_step dips n =
     (let dip = dips ! n in
      if dip_type dip = High then
        (if n = 0 then
           (if length dips = 1 then
              dips[n := dip\<lparr>dip_alt_std := dip_highest_ground dip + 1000\<rparr>]
            else
              (let next_dip = dips ! (n + 1)
               in dips[n := dip\<lparr>dip_highest_ground :=
                    dip_alt_std dip - dip_alt_std next_dip + dip_highest_ground next_dip\<rparr>]))
         else if n = length dips - 1 then
           (let prev_dip = dips ! (n - 1)
            in dips[n := dip\<lparr>dip_highest_ground :=
                 dip_alt_std dip - dip_alt_std prev_dip + dip_highest_ground prev_dip\<rparr>])
         else
           (let next_dip = dips ! (n + 1);
                prev_dip = dips ! (n - 1)
            in dips[n := dip\<lparr>dip_highest_ground :=
                 min (dip_highest_ground prev_dip)
                     (min (dip_alt_std dip - 1000) (dip_highest_ground next_dip))\<rparr>]))
      else dips)"

definition post_pass :: "dip list \<Rightarrow> dip list" where
  "post_pass dips = fold (\<lambda>n ds. post_pass_step ds n) [0..<length dips] dips"

section \<open>AltitudeAAL.derive\<close>

text \<open>The loop \<open>for dip in dips\<close> that writes the result of \<open>compute_aal\<close> into each
  dip's slice of the output; an exception of \<open>compute_aal\<close> propagates.\<close>

fun write_dips ::
  "(marray \<Rightarrow> real option option) \<Rightarrow> real \<Rightarrow> marray \<Rightarrow> marray option \<Rightarrow> dip list \<Rightarrow> marray
     \<Rightarrow> error + marray" where
  "write_dips liftoff thr alt_std alt_rad [] alt_aal = Inr alt_aal"
| "write_dips liftoff thr alt_std alt_rad (dip # dips) alt_aal =
     (case compute_aal liftoff thr (dip_type dip) (get_slice alt_std (dip_slice dip))
             (dip_alt_std dip) (dip_highest_ground dip)
             (map_option (\<lambda>r. get_slice r (dip_slice dip)) alt_rad) of
        Inl e \<Rightarrow> Inl e
      | Inr res \<Rightarrow>
          write_dips liftoff thr alt_std alt_rad dips (put_slice alt_aal (dip_slice dip) res))"

text \<open>
  The body of the loop over the \<open>Fast\<close> sections, after \<open>cycle_finder\<close> has given the
  extrema \<open>ext\<close> of the section (indices relative to the section): the indices are made
  absolute (\<open>alt_idxs += quick.start or 0\<close>), the dips are built, adjusted and written, and
  the end sections are reset.
  \<open>alt_idxs[0]\<close> on an empty array raises \<open>IndexError\<close>.
\<close>

definition absolute_extrema :: "qslice \<Rightarrow> (nat \<times> real) list \<Rightarrow> (nat \<times> real) list" where
  "absolute_extrema quick ext =
     map (\<lambda>(i, v). (i + (case q_start quick of None \<Rightarrow> 0 | Some s \<Rightarrow> s), v)) ext"

definition process_section ::
  "(marray \<Rightarrow> real option option) \<Rightarrow> real \<Rightarrow> marray \<Rightarrow> marray option \<Rightarrow> qslice
     \<Rightarrow> (nat \<times> real) list \<Rightarrow> marray \<Rightarrow> error + marray" where
  "process_section liftoff thr alt_std alt_rad quick ext alt_aal =
     (let alt_ext = absolute_extrema quick ext
      in case build_dips quick alt_std alt_rad alt_ext 0 [] of
           Inl e \<Rightarrow> Inl e
         | Inr dips \<Rightarrow>
             (case write_dips liftoff thr alt_std alt_rad (post_pass dips) alt_aal of
                Inl e \<Rightarrow> Inl e
              | Inr alt_aal1 \<Rightarrow>
                  if alt_ext = [] then Inl IndexError
                  else
                    (let alt_aal2 = fill_slice alt_aal1
                                      (case q_start quick of None \<Rightarrow> 0 | Some s \<Rightarrow> s)
                                      (fst (hd alt_ext) + 1) (Some 0)
                     in Inr (fill_slice alt_aal2 (fst (last alt_ext) + 1)
                               (case q_stop quick of None \<Rightarrow> length alt_aal2 | Some e \<Rightarrow> e)
                               (Some 0)))))"

text \<open>
  The loop over the \<open>Fast\<close> sections.  \<open>cycle_finder\<close> (with \<open>min_step=500\<close>) is a library
  function that is not in the sources: it is a parameter, which gives \<open>None\<close> when the
  library returns \<open>None, None\<close>.  A section that is \<open>slice(None, None, None)\<close> ends the
  loop.  Nothing catches an exception: it ends \<open>derive\<close>.
\<close>

fun derive_loop ::
  "(marray \<Rightarrow> real option option) \<Rightarrow> real \<Rightarrow> (marray \<Rightarrow> (nat \<times> real) list option)
     \<Rightarrow> marray \<Rightarrow> marray option \<Rightarrow> qslice list \<Rightarrow> marray \<Rightarrow> error + marray" where
  "derive_loop liftoff thr cycle_finder alt_std alt_rad [] alt_aal = Inr alt_aal"
| "derive_loop liftoff thr cycle_finder alt_std alt_rad (quick # speedies) alt_aal =
     (if q_start quick = None \<and> q_stop quick = None then Inr alt_aal
      else case cycle_finder (get_slice alt_std (q_slice quick)) of
             None \<Rightarrow> derive_loop liftoff thr cycle_finder alt_std alt_rad speedies alt_aal
           | Some ext \<Rightarrow>
               (case process_section liftoff thr alt_std alt_rad quick ext alt_aal of
                  Inl e \<Rightarrow> Inl e
                | Inr alt_aal1 \<Rightarrow>
                    derive_loop liftoff thr cycle_finder alt_std alt_rad speedies alt_aal1))"

definition derive ::
  "(marray \<Rightarrow> real option option) \<Rightarrow> real \<Rightarrow> (marray \<Rightarrow> (nat \<times> real) list option)
     \<Rightarrow> marray option \<Rightarrow> marray \<Rightarrow> qslice list \<Rightarrow> error + marray" where
  "derive liftoff thr cycle_finder alt_rad alt_std speedies =
     derive_loop liftoff thr cycle_finder alt_std alt_rad speedies (np_ma_zeros_like alt_std)"

section \<open>Dips: the properties claimed of them\<close>

text \<open>The pass over the dips, stopped before dip \<open>k\<close>.\<close>

definition post_pass_upto :: "dip list \<Rightarrow> nat \<Rightarrow> dip list" where
  "post_pass_upto dips k = fold (\<lambda>n ds. post_pass_step ds n) [0..<k] dips"

text \<open>
  For a slice whose bounds are non-negative and within the array: the first index it
  covers and the index one past the last it covers (\<open>None\<close> for the end of the array).  A
  reversed slice \<open>slice(a, b, -1)\<close> covers the indices \<open>b + 1\<close> to \<open>a\<close>.  Dips are chained
  when each one starts where the one before it stops.  The extrema alternate when every
  inner extremum is a strict peak or a strict trough.  No section is dropped when
  \<open>hg_max\<close> is valid for every down and up section with valid radio altitude.  Only the
  ends are of type \<open>land\<close> when no dip other than the first and the last is.
\<close>

fun is_fwd :: "pyslice \<Rightarrow> bool" where
  "is_fwd (Fwd a b) = True"
| "is_fwd (Rev a b) = False"

fun covers_from :: "pyslice \<Rightarrow> int" where
  "covers_from (Fwd a b) = (case a of None \<Rightarrow> 0 | Some i \<Rightarrow> i)"
| "covers_from (Rev a b) = (case b of None \<Rightarrow> 0 | Some i \<Rightarrow> i + 1)"

fun covers_upto :: "pyslice \<Rightarrow> int option" where
  "covers_upto (Fwd a b) = b"
| "covers_upto (Rev a b) = map_option (\<lambda>i. i + 1) a"

fun chained :: "dip list \<Rightarrow> bool" where
  "chained [] = True"
| "chained [d] = True"
| "chained (d # e # ds) =
     (covers_upto (dip_slice d) = Some (covers_from (dip_slice e)) \<and> chained (e # ds))"

definition alternating :: "(nat \<times> real) list \<Rightarrow> bool" where
  "alternating ext \<longleftrightarrow>
     (\<forall>k. k + 2 < length ext \<longrightarrow>
        (snd (ext ! k) < snd (ext ! (k + 1)) \<and> snd (ext ! (k + 2)) < snd (ext ! (k + 1))) \<or>
        (snd (ext ! (k + 1)) < snd (ext ! k) \<and> snd (ext ! (k + 1)) < snd (ext ! (k + 2))))"

definition none_dropped :: "marray \<Rightarrow> marray option \<Rightarrow> (nat \<times> real) list \<Rightarrow> bool" where
  "none_dropped alt_std alt_rad ext \<longleftrightarrow>
     (\<forall>n r. n + 2 < length ext \<and> alt_rad = Some r \<and> radio_in_section alt_rad ext n \<longrightarrow>
        section_hg_max alt_std r ext n \<noteq> None)"

definition only_ends_land :: "dip list \<Rightarrow> bool" where
  "only_ends_land dips \<longleftrightarrow> (\<forall>k. 0 < k \<and> k + 1 < length dips \<longrightarrow> dip_type (dips ! k) \<noteq> Land)"

text \<open>The invariant of the loop that builds the dips, at the extremum \<open>n\<close>, before the
  final descent: \<open>n\<close> is a peak unless it is the first extremum.\<close>

definition build_inv :: "(nat \<times> real) list \<Rightarrow> nat \<Rightarrow> dip list \<Rightarrow> bool" where
  "build_inv ext n dips \<longleftrightarrow>
     (n = 0 \<longrightarrow> dips = []) \<and>
     (0 < n \<longrightarrow> snd (ext ! (n - 1)) < snd (ext ! n)) \<and>
     (\<forall>d\<in>set dips. is_fwd (dip_slice d)) \<and>
     chained dips \<and>
     (dips \<noteq> [] \<longrightarrow> covers_upto (dip_slice (last dips)) = Some (int (fst (ext ! n)))) \<and>
     (\<forall>k. 0 < k \<and> k < length dips \<longrightarrow> dip_type (dips ! k) \<noteq> Land)"

section \<open>The ground-effect override of the inertial vertical speed\<close>

text \<open>
  \<open>np.linspace(start, stop, num)\<close>: \<open>num\<close> evenly spaced samples from \<open>start\<close> to \<open>stop\<close>
  inclusive; a single sample is \<open>start\<close>.
\<close>

definition linspace :: "real \<Rightarrow> real \<Rightarrow> nat \<Rightarrow> real list" where
  "linspace start stop num =
     (if num = 1 then [start]
      else map (\<lambda>i. start + real i * ((stop - start) / real (num - 1))) [0..<num])"

text \<open>
  Modelled from the spec: \<open>integrate\<close> of \<open>analysis_engine.library\<close> is not in the sources.
  The override uses "a pure integration of the washed-out acceleration": the running
  trapezoidal sum at the sample interval \<open>1 / hz\<close>, starting from 0.  The properties below
  hold for every integration that keeps the length of its input; this one is used for
  concrete evaluation only.
\<close>

fun integrate_from :: "real \<Rightarrow> real \<Rightarrow> real \<Rightarrow> real list \<Rightarrow> real list" where
  "integrate_from k acc prev [] = []"
| "integrate_from k acc prev (x # xs) =
     (acc + k * (x + prev)) # integrate_from k (acc + k * (x + prev)) x xs"

definition integrate :: "real list \<Rightarrow> nat \<Rightarrow> real list" where
  "integrate xs hz =
     (case xs of [] \<Rightarrow> [] | x # rest \<Rightarrow> 0 # integrate_from ((1 / 2) / real hz) 0 x rest)"

text \<open>
  The body of the loop over the climb bands in \<open>inertial_vertical_speed\<close>, on the arrays
  of one clump of valid data.  A band is a slice \<open>(start, stop)\<close> of the array with
  \<open>start < stop\<close>, as \<open>slices_from_to\<close> gives them; \<open>hz\<close> is the sample rate, a whole
  number of samples per second.  \<open>climb.start - 5*hz\<close> is cut off at 0.
\<close>

definition climb_step ::
  "(real list \<Rightarrow> nat \<Rightarrow> real list) \<Rightarrow> real list \<Rightarrow> nat \<Rightarrow> nat \<times> nat \<Rightarrow> real list \<Rightarrow> real list" where
  "climb_step integ az_washout hz climb roc =
     (let lift_m5s = fst climb - 5 * hz;
          up_slope = integ (py_slice az_washout lift_m5s (snd climb)) hz;
          blend_end_error = roc ! (snd climb - 1) - last up_slope;
          blend_slope = linspace 0 blend_end_error (snd climb - fst climb);
          roc1 = fill_slice roc 0 lift_m5s 0;
          roc2 = set_slice roc1 lift_m5s (fst climb)
                   (py_slice up_slope 0 (fst climb - lift_m5s));
          roc3 = set_slice roc2 (fst climb) (snd climb)
                   (map (\<lambda>(u, b). u + b)
                      (zip (py_slice up_slope (fst climb - lift_m5s) (length up_slope))
                           blend_slope))
      in roc3)"

text \<open>The body of the loop over the descent bands.\<close>

definition descent_step ::
  "(real list \<Rightarrow> nat \<Rightarrow> real list) \<Rightarrow> real list \<Rightarrow> nat \<Rightarrow> nat \<times> nat \<Rightarrow> real list \<Rightarrow> real list" where
  "descent_step integ az_washout hz descent roc =
     (let down_start = fst descent;
          down_stop = snd descent + 5 * hz;
          down_slope = integ (py_slice az_washout down_start down_stop) hz;
          blend = roc ! down_start - hd down_slope;
          blend_slope = linspace blend (- last down_slope) (length down_slope);
          roc1 = set_slice roc down_start down_stop
                   (map (\<lambda>(u, b). u + b) (zip down_slope blend_slope));
          roc2 = fill_slice roc1 (snd descent + 5 * hz) (length roc1) 0
      in roc2)"

text \<open>
  The override: the climb bands in order, then the descent bands in order, on the nominal
  vertical speed \<open>roc\<close> (the sum of the two filter terms), and the scaling to feet per minute.
  The bands come from \<open>slices_from_to\<close>, which is not in the sources: they are parameters.
\<close>

definition ground_effect_override ::
  "(real list \<Rightarrow> nat \<Rightarrow> real list) \<Rightarrow> real list \<Rightarrow> nat \<Rightarrow> (nat \<times> nat) list
     \<Rightarrow> (nat \<times> nat) list \<Rightarrow> real list \<Rightarrow> real list" where
  "ground_effect_override integ az_washout hz climbs descents roc =
     map (\<lambda>v. v * 60)
       (fold (descent_step integ az_washout hz) descents
          (fold (climb_step integ az_washout hz) climbs roc))"

section \<open>Evaluation rules\<close>

lemmas ma_defs = np_ma_zeros_like_def ma_count_def ma_sub_scalar_def ma_sub_def ma_maximum0_def
  masked_outside_def compressed_def ma_mean_def ma_min_def clump_unmasked_def py_slice_def
  set_slice_def fill_slice_def first_valid_sample_def slices_not_def

lemmas aal_defs = shift_alt_std_def link_baro_rad_fwd_def link_baro_rad_rev_def
  mean_error_exceeds_def link_all_def stitch_step_def stitch_def any_above_def compute_aal_def

lemmas derive_defs = derive_def process_section_def absolute_extrema_def build_dips.simps
  down_up_section_def radio_in_section_def section_hg_max_def get_slice_def put_slice_def
  adjust_def ma_argmin_def post_pass_def post_pass_step_def q_slice_def upto.simps

lemmas override_defs = ground_effect_override_def climb_step_def descent_step_def linspace_def
  integrate_def py_slice_def set_slice_def fill_slice_def

section \<open>Basic facts about slices and clumps\<close>

lemma length_set_slice [simp]: "length (set_slice a i j vs) = length a"
  by (simp add: set_slice_def)

lemma nth_set_slice:
  "k < length a \<Longrightarrow> set_slice a i j vs ! k = (if i \<le> k \<and> k < j then vs ! (k - i) else a ! k)"
  by (simp add: set_slice_def)

lemma length_fill_slice [simp]: "length (fill_slice a i j v) = length a"
  by (simp add: fill_slice_def)

lemma nth_fill_slice:
  "k < length a \<Longrightarrow> fill_slice a i j v ! k = (if i \<le> k \<and> k < j then v else a ! k)"
  by (simp add: fill_slice_def)

lemma fill_slice_empty [simp]: "fill_slice a i i v = a"
  by (rule nth_equalityI) (auto simp: nth_fill_slice)

lemma py_slice_all [simp]: "py_slice a 0 (length a) = a"
  by (simp add: py_slice_def)

lemma set_slice_all: "length vs = length a \<Longrightarrow> set_slice a 0 (length vs) vs = vs"
  by (rule nth_equalityI) (simp_all add: nth_set_slice)

lemma clump_scan_all_valid:
  "\<forall>x\<in>set xs. x \<noteq> None \<Longrightarrow> clump_scan i (Some s) xs = [(s, i + length xs)]"
  by (induction xs arbitrary: i) auto

lemma clump_unmasked_all_valid:
  "xs \<noteq> [] \<Longrightarrow> \<forall>x\<in>set xs. x \<noteq> None \<Longrightarrow> clump_unmasked xs = [(0, length xs)]"
  by (cases xs) (auto simp: clump_unmasked_def clump_scan_all_valid)

lemma clump_scan_all_masked:
  "\<forall>x\<in>set xs. x = None \<Longrightarrow> clump_scan i None xs = []"
  by (induction xs arbitrary: i) auto

lemma slices_not_whole: "slices_not [(0, n)] 0 n = []"
  by (simp add: slices_not_def clump_unmasked_def clump_scan_all_masked)

lemma in_band_clip:
  assumes "\<forall>x\<in>set a. \<exists>v. x = Some v \<and> 1 / 10 \<le> v \<and> v \<le> 100"
  shows "ma_maximum0 a = a" and "masked_outside a (1 / 10) 100 = a"
proof -
  show "ma_maximum0 a = a"
    unfolding ma_maximum0_def using assms by (intro map_idI) (auto simp: max_def)
  show "masked_outside a (1 / 10) 100 = a"
    unfolding masked_outside_def using assms by (intro map_idI) auto
qed

lemma ma_count_pos: "a \<noteq> [] \<Longrightarrow> \<forall>x\<in>set a. x \<noteq> None \<Longrightarrow> ma_count a \<noteq> 0"
  by (cases a) (auto simp: ma_count_def)

lemma stitch_whole:
  assumes "length alt_rad_aal = length alt_std" and "length res = length alt_std"
    and "\<not> mean_error_exceeds alt_std alt_rad_aal (0, length alt_std)"
  shows "stitch [(0, length alt_std)] alt_rad_aal alt_std res = alt_rad_aal"
  using assms
  by (simp add: stitch_def stitch_step_def slices_not_whole link_all_def set_slice_all
      flip: assms(1))

lemma stitch_step_skipped:
  "mean_error_exceeds alt_std alt_rad_aal y \<Longrightarrow>
   stitch_step baro alt_rad_aal alt_std y res = res"
  by (simp add: stitch_step_def)

lemma fold_stitch_step_unskipped:
  "fold (stitch_step baro alt_rad_aal alt_std) secs res
     = fold (stitch_step baro alt_rad_aal alt_std)
         (filter (\<lambda>y. \<not> mean_error_exceeds alt_std alt_rad_aal y) secs) res"
  by (induction secs arbitrary: res) (simp_all add: stitch_step_skipped)

lemma stitch_all_skipped:
  "\<forall>y\<in>set secs. mean_error_exceeds alt_std alt_rad_aal y \<Longrightarrow>
   fold (stitch_step baro alt_rad_aal alt_std) secs res = res"
  by (induction secs arbitrary: res) (simp_all add: stitch_step_def)





lemma length_py_slice [simp]: "length (py_slice a i j) = min (length a) j - i"
  by (simp add: py_slice_def)

lemma nth_py_slice: "i + k < min (length a) j \<Longrightarrow> py_slice a i j ! k = a ! (i + k)"
proof -
  assume a: "i + k < min (length a) j"
  then have "k < j - i" by arith
  with a show ?thesis by (simp add: py_slice_def)
qed


lemma length_ma_sub [simp]: "length (ma_sub a b) = min (length a) (length b)"
  by (simp add: ma_sub_def)


lemma length_ma_sub_scalar [simp]: "length (ma_sub_scalar a c) = length a"
  by (simp add: ma_sub_scalar_def)




lemma map_option_sub0 [simp]: "map_option (\<lambda>v::real. v - 0) x = x"
  by (cases x) auto








section \<open>Facts about the dips\<close>

lemma length_post_pass_step [simp]: "length (post_pass_step ds n) = length ds"
  by (simp add: post_pass_step_def Let_def)

lemma nth_post_pass_step_other: "i \<noteq> n \<Longrightarrow> post_pass_step ds n ! i = ds ! i"
  by (simp add: post_pass_step_def Let_def)

lemma post_pass_upto_0 [simp]: "post_pass_upto dips 0 = dips"
  by (simp add: post_pass_upto_def)

lemma post_pass_upto_Suc [simp]:
  "post_pass_upto dips (Suc k) = post_pass_step (post_pass_upto dips k) k"
  by (simp add: post_pass_upto_def)

lemma length_post_pass_upto [simp]: "length (post_pass_upto dips k) = length dips"
  by (induction k) simp_all

lemma post_pass_upto_later: "k \<le> i \<Longrightarrow> post_pass_upto dips k ! i = dips ! i"
  by (induction k) (simp_all add: nth_post_pass_step_other)

lemma post_pass_upto_stable: "i < k \<Longrightarrow> post_pass_upto dips k ! i = post_pass_upto dips (Suc i) ! i"
proof (induction k)
  case 0
  then show ?case by simp
next
  case (Suc k)
  show ?case
  proof (cases "i = k")
    case True
    then show ?thesis by simp
  next
    case False
    with Suc have "i < k" by simp
    with Suc.IH have "post_pass_upto dips k ! i = post_pass_upto dips (Suc i) ! i" by simp
    with False show ?thesis by (simp add: nth_post_pass_step_other)
  qed
qed

lemma post_pass_nth:
  assumes "n < length dips"
  shows "post_pass dips ! n = post_pass_step (post_pass_upto dips n) n ! n"
  using post_pass_upto_stable [of n "length dips" dips] assms
  by (simp add: post_pass_def post_pass_upto_def [symmetric])

lemma post_pass_prev:
  assumes "0 < n" "n < length dips"
  shows "post_pass_upto dips n ! (n - 1) = post_pass dips ! (n - 1)"
proof -
  from assms have "n - 1 < n" "n - 1 < length dips" by simp_all
  then have a: "post_pass_upto dips n ! (n - 1) = post_pass_upto dips (Suc (n - 1)) ! (n - 1)"
    and b: "post_pass dips ! (n - 1) = post_pass_upto dips (Suc (n - 1)) ! (n - 1)"
    using post_pass_upto_stable [of "n - 1" n dips]
      post_pass_upto_stable [of "n - 1" "length dips" dips]
    by (simp_all add: post_pass_def post_pass_upto_def [symmetric])
  then show ?thesis by simp
qed

lemma chained_snoc:
  "chained (ds @ [d]) \<longleftrightarrow>
     chained ds \<and> (ds \<noteq> [] \<longrightarrow>
       covers_upto (dip_slice (last ds)) = Some (covers_from (dip_slice d)))"
  by (induction ds rule: chained.induct) auto

lemma chained_replace_last:
  assumes "chained ds" and "ds \<noteq> []"
    and "covers_from (dip_slice d') = covers_from (dip_slice (last ds))"
  shows "chained (butlast ds @ [d'])"
proof -
  from assms(1,2) have "chained (butlast ds @ [last ds])" by simp
  then show ?thesis using assms(3) by (simp add: chained_snoc)
qed

lemma is_fwd_covers_from:
  "is_fwd s \<Longrightarrow> covers_from (Fwd (slice_start s) b) = covers_from s"
  by (cases s) auto

lemma down_up_section_inv:
  assumes inv: "build_inv ext n dips"
    and nd: "none_dropped alt_std alt_rad ext"
    and n2: "n + 2 < length ext"
    and up: "snd (ext ! (n + 1)) < snd (ext ! (n + 2))"
  shows "build_inv ext (n + 2) (down_up_section alt_std alt_rad ext n dips)"
proof -
  let ?down_up = "Fwd (Some (int (fst (ext ! n)))) (Some (int (fst (ext ! Suc (Suc n)))))"
  from inv have fw: "\<forall>d\<in>set dips. is_fwd (dip_slice d)" and ch: "chained dips"
    and lst: "dips \<noteq> [] \<longrightarrow> covers_upto (dip_slice (last dips)) = Some (int (fst (ext ! n)))"
    and mid: "\<forall>k. 0 < k \<and> k < length dips \<longrightarrow> dip_type (dips ! k) \<noteq> Land"
    by (simp_all add: build_inv_def)
  have app: "\<And>d. dip_type d \<noteq> Land \<Longrightarrow> dip_slice d = ?down_up \<Longrightarrow>
      build_inv ext (Suc (Suc n)) (dips @ [d])"
    using fw ch lst mid up
    by (auto simp: build_inv_def chained_snoc nth_append)
  show ?thesis
  proof (cases "radio_in_section alt_rad ext n")
    case True
    then obtain r where r: "alt_rad = Some r" by (cases alt_rad) (auto simp: radio_in_section_def)
    with nd n2 True have "section_hg_max alt_std r ext n \<noteq> None"
      by (simp add: none_dropped_def)
    then obtain low hg where "section_hg_max alt_std r ext n = Some (low, hg)" by auto
    with True r show ?thesis
      by (simp add: down_up_section_def Let_def app)
  next
    case False
    show ?thesis
    proof (cases "dips \<noteq> [] \<and> dip_type (last dips) = High")
      case True
      define d' where "d' = (last dips)\<lparr>dip_slice := Fwd (slice_start (dip_slice (last dips)))
                                           (Some (int (fst (ext ! (n + 2))))),
                          dip_alt_std := min (dip_alt_std (last dips)) (snd (ext ! (n + 1)))\<rparr>"
      have eq: "down_up_section alt_std alt_rad ext n dips = butlast dips @ [d']"
        using False True by (simp add: down_up_section_def Let_def d'_def)
      from True fw have lf: "is_fwd (dip_slice (last dips))" by simp
      have cf: "covers_from (dip_slice d') = covers_from (dip_slice (last dips))"
        using is_fwd_covers_from [OF lf] by (simp add: d'_def)
      have c1: "chained (butlast dips @ [d'])"
        using chained_replace_last [OF ch _ cf] True by simp
      have c2: "\<forall>d\<in>set (butlast dips @ [d']). is_fwd (dip_slice d)"
        using fw by (auto simp: d'_def dest: in_set_butlastD)
      have c3: "covers_upto (dip_slice (last (butlast dips @ [d'])))
          = Some (int (fst (ext ! (n + 2))))"
        by (simp add: d'_def)
      have c4: "\<forall>k. 0 < k \<and> k < length (butlast dips @ [d']) \<longrightarrow>
          dip_type ((butlast dips @ [d']) ! k) \<noteq> Land"
      proof (intro allI impI)
        fix k assume k: "0 < k \<and> k < length (butlast dips @ [d'])"
        show "dip_type ((butlast dips @ [d']) ! k) \<noteq> Land"
        proof (cases "k < length (butlast dips)")
          case True
          then have "(butlast dips @ [d']) ! k = dips ! k"
            by (simp add: nth_append nth_butlast)
          moreover from True have "k < length dips" by simp
          ultimately show ?thesis using mid k by simp
        next
          case False
          with k have "(butlast dips @ [d']) ! k = d'" by (simp add: nth_append)
          then show ?thesis using True by (simp add: d'_def)
        qed
      qed
      show ?thesis
        unfolding eq build_inv_def using c1 c2 c3 c4 up by simp
    next
      case F2: False
      with False show ?thesis
        by (auto simp: down_up_section_def Let_def app)
    qed
  qed
qed


declare build_dips.simps [simp del]

lemma build_dips_exit:
  "\<not> n + 1 < length ext \<Longrightarrow> build_dips quick alt_std alt_rad ext n dips = Inr dips"
  by (subst build_dips.simps) simp

lemma build_dips_rising:
  "n + 1 < length ext \<Longrightarrow> snd (ext ! n) < snd (ext ! (n + 1)) \<Longrightarrow>
   build_dips quick alt_std alt_rad ext n dips =
   build_dips quick alt_std alt_rad ext (n + 1)
     (dips @ [\<lparr>dip_type = Land,
               dip_slice = Fwd (map_option int (q_start quick)) (Some (int (fst (ext ! (n + 1))))),
               dip_alt_std = snd (ext ! n), dip_highest_ground = snd (ext ! n)\<rparr>])"
  by (subst build_dips.simps) (simp add: Let_def)

lemma build_dips_falling:
  "n + 1 < length ext \<Longrightarrow> \<not> snd (ext ! n) < snd (ext ! (n + 1)) \<Longrightarrow> length ext \<le> n + 2 \<Longrightarrow>
   build_dips quick alt_std alt_rad ext n dips =
   Inr (dips @ [\<lparr>dip_type = Land,
               dip_slice = Rev (map_option int (q_stop quick)) (Some (int (fst (ext ! n)) - 1)),
               dip_alt_std = snd (ext ! (n + 1)), dip_highest_ground = snd (ext ! (n + 1))\<rparr>])"
  by (subst build_dips.simps) (simp add: Let_def build_dips_exit)

lemma build_dips_down_up:
  "n + 2 < length ext \<Longrightarrow> \<not> snd (ext ! n) < snd (ext ! (n + 1)) \<Longrightarrow>
   snd (ext ! (n + 1)) < snd (ext ! (n + 2)) \<Longrightarrow>
   build_dips quick alt_std alt_rad ext n dips =
   build_dips quick alt_std alt_rad ext (n + 2) (down_up_section alt_std alt_rad ext n dips)"
  by (subst build_dips.simps) (simp add: Let_def)

lemma build_dips_peak:
  "n + 2 < length ext \<Longrightarrow> \<not> snd (ext ! n) < snd (ext ! (n + 1)) \<Longrightarrow>
   \<not> snd (ext ! (n + 1)) < snd (ext ! (n + 2)) \<Longrightarrow>
   build_dips quick alt_std alt_rad ext n dips = Inl ValueError"
  by (subst build_dips.simps) (simp add: Let_def)

lemma build_dips_good:
  assumes alt: "alternating ext" and nd: "none_dropped alt_std alt_rad ext"
  shows "build_inv ext n dips \<Longrightarrow>
     \<exists>out. build_dips quick alt_std alt_rad ext n dips = Inr out \<and> chained out \<and>
           only_ends_land out"
proof (induction "length ext - n" arbitrary: n dips rule: less_induct)
  case less
  note inv = less.prems
  show ?case
  proof (cases "n + 1 < length ext")
    case False
    then have "build_dips quick alt_std alt_rad ext n dips = Inr dips"
      by (rule build_dips_exit)
    with inv show ?thesis by (auto simp: build_inv_def only_ends_land_def)
  next
    case True
    show ?thesis
    proof (cases "snd (ext ! n) < snd (ext ! (n + 1))")
      case rise: True
      have n0: "n = 0"
      proof (rule ccontr)
        assume "n \<noteq> 0"
        then have pk: "snd (ext ! (n - 1)) < snd (ext ! n)" and k: "n - 1 + 2 < length ext"
          and e1: "n - 1 + 1 = n" and e2: "n - 1 + 2 = n + 1"
          using inv True by (auto simp: build_inv_def)
        from alt k have
          "(snd (ext ! (n - 1)) < snd (ext ! (n - 1 + 1)) \<and>
              snd (ext ! (n - 1 + 2)) < snd (ext ! (n - 1 + 1))) \<or>
           (snd (ext ! (n - 1 + 1)) < snd (ext ! (n - 1)) \<and>
              snd (ext ! (n - 1 + 1)) < snd (ext ! (n - 1 + 2)))"
          unfolding alternating_def by blast
        with pk rise show False unfolding e1 e2 by auto
      qed
      with inv have d0: "dips = []" by (simp add: build_inv_def)
      let ?d = "\<lparr>dip_type = Land,
               dip_slice = Fwd (map_option int (q_start quick)) (Some (int (fst (ext ! (n + 1))))),
               dip_alt_std = snd (ext ! n), dip_highest_ground = snd (ext ! n)\<rparr>"
      have inv': "build_inv ext (n + 1) (dips @ [?d])"
        using rise d0 by (auto simp: build_inv_def)
      have "length ext - (n + 1) < length ext - n" using True by arith
      from less.hyps [OF this inv'] show ?thesis
        by (simp add: build_dips_rising [OF True rise])
    next
      case norise: False
      show ?thesis
      proof (cases "length ext \<le> n + 2")
        case fall: True
        let ?d = "\<lparr>dip_type = Land,
               dip_slice = Rev (map_option int (q_stop quick)) (Some (int (fst (ext ! n)) - 1)),
               dip_alt_std = snd (ext ! (n + 1)), dip_highest_ground = snd (ext ! (n + 1))\<rparr>"
        have "chained (dips @ [?d])"
          using inv by (simp add: chained_snoc build_inv_def)
        moreover have "only_ends_land (dips @ [?d])"
          using inv by (auto simp: only_ends_land_def build_inv_def nth_append)
        ultimately show ?thesis
          by (simp add: build_dips_falling [OF True norise fall])
      next
        case False
        then have n2: "n + 2 < length ext" by simp
        from alt n2 have
          "(snd (ext ! n) < snd (ext ! (n + 1)) \<and> snd (ext ! (n + 2)) < snd (ext ! (n + 1))) \<or>
           (snd (ext ! (n + 1)) < snd (ext ! n) \<and> snd (ext ! (n + 1)) < snd (ext ! (n + 2)))"
          unfolding alternating_def by blast
        with norise have up: "snd (ext ! (n + 1)) < snd (ext ! (n + 2))" by auto
        have inv': "build_inv ext (n + 2) (down_up_section alt_std alt_rad ext n dips)"
          by (rule down_up_section_inv [OF inv nd n2 up])
        have "length ext - (n + 2) < length ext - n" using n2 by arith
        from less.hyps [OF this inv'] show ?thesis
          by (simp add: build_dips_down_up [OF n2 norise up])
      qed
    qed
  qed
qed

lemma alternating_example:
  "alternating [(0, 0), (1, 5000), (2, 4000), (3, 5000), (4, 0)]" (is "alternating ?E")
  unfolding alternating_def
proof (intro allI impI)
  fix k :: nat
  assume "k + 2 < length ?E"
  then have "k = 0 \<or> k = 1 \<or> k = 2" by simp arith
  then show "(snd (?E ! k) < snd (?E ! (k + 1)) \<and> snd (?E ! (k + 2)) < snd (?E ! (k + 1))) \<or>
       (snd (?E ! (k + 1)) < snd (?E ! k) \<and> snd (?E ! (k + 1)) < snd (?E ! (k + 2)))"
    by (elim disjE) simp_all
qed

lemma none_dropped_example:
  "none_dropped [Some 0, Some 5000, Some 4000, Some 5000, Some 0]
     (Some [Some 0, Some 150, Some 2000, Some 2000, Some 0])
     [(0, 0), (1, 5000), (2, 4000), (3, 5000), (4, 0)]"
  (is "none_dropped ?A (Some ?R) ?E")
  unfolding none_dropped_def
proof (intro allI impI)
  fix n :: nat and r :: marray
  assume a: "n + 2 < length ?E \<and> Some ?R = Some r \<and> radio_in_section (Some ?R) ?E n"
  then have r: "r = ?R" by simp
  from a have "n = 0 \<or> n = 1 \<or> n = 2" by simp arith
  then show "section_hg_max ?A r ?E n \<noteq> None"
    unfolding r
    by (elim disjE)
      (simp_all add: section_hg_max_def get_slice_def adjust_def ma_argmin_def
        ma_min_def compressed_def upto.simps)
qed

section \<open>Facts about derive\<close>

lemma length_put_slice [simp]: "length (put_slice a s vs) = length a"
proof -
  have "\<And>ps b. length (fold (\<lambda>(i, v) b. b[i := v]) ps b) = length (b :: 'a list)"
  proof -
    fix ps :: "(nat \<times> 'a) list" and b :: "'a list"
    show "length (fold (\<lambda>(i, v) b. b[i := v]) ps b) = length b"
      by (induction ps arbitrary: b) (auto split: prod.splits)
  qed
  then show ?thesis by (simp add: put_slice_def)
qed

lemma length_write_dips:
  "write_dips liftoff thr alt_std alt_rad dips alt_aal = Inr out \<Longrightarrow> length out = length alt_aal"
  by (induction dips arbitrary: alt_aal) (auto split: sum.splits)

lemma ma_maximum0_nonneg: "Some v \<in> set (ma_maximum0 b) \<Longrightarrow> 0 \<le> v"
proof -
  assume "Some v \<in> set (ma_maximum0 b)"
  then obtain y where "Some v = map_option (max 0) y" by (auto simp: ma_maximum0_def)
  then show "0 \<le> v" by (cases y) auto
qed

lemma shift_alt_std_nonneg:
  "shift_alt_std liftoff a = Inr res \<Longrightarrow> x \<in> set res \<Longrightarrow> x = Some v \<Longrightarrow> 0 \<le> v"
  by (auto simp: shift_alt_std_def Let_def split: option.splits if_splits
      dest: ma_maximum0_nonneg)

lemma absolute_extrema_Nil [simp]: "absolute_extrema quick ext = [] \<longleftrightarrow> ext = []"
  by (simp add: absolute_extrema_def)

lemma process_section_Inr:
  assumes "process_section liftoff thr alt_std alt_rad quick ext alt_aal = Inr out"
  obtains dips alt_aal1 where
    "build_dips quick alt_std alt_rad (absolute_extrema quick ext) 0 [] = Inr dips"
    "write_dips liftoff thr alt_std alt_rad (post_pass dips) alt_aal = Inr alt_aal1"
    "ext \<noteq> []"
    "out = fill_slice
             (fill_slice alt_aal1 (case q_start quick of None \<Rightarrow> 0 | Some s \<Rightarrow> s)
                (fst (hd (absolute_extrema quick ext)) + 1) (Some 0))
             (fst (last (absolute_extrema quick ext)) + 1)
             (case q_stop quick of None \<Rightarrow> length alt_aal1 | Some e \<Rightarrow> e) (Some 0)"
  using assms
  by (cases "q_stop quick") (auto simp: process_section_def Let_def split: sum.splits if_splits)

lemma derive_loop_append:
  assumes "\<forall>q\<in>set pre. \<not> (q_start q = None \<and> q_stop q = None)"
    and "derive_loop liftoff thr cycle_finder alt_std alt_rad pre a0 = Inr a1"
  shows "derive_loop liftoff thr cycle_finder alt_std alt_rad (pre @ rest) a0
       = derive_loop liftoff thr cycle_finder alt_std alt_rad rest a1"
  using assms
  by (induction pre arbitrary: a0) (auto split: option.splits sum.splits)

lemma process_section_ValueError:
  "build_dips quick alt_std alt_rad (absolute_extrema quick ext) 0 [] = Inl e \<Longrightarrow>
   process_section liftoff thr alt_std alt_rad quick ext alt_aal = Inl e"
  by (simp add: process_section_def)

section \<open>Facts about the ground-effect override\<close>

lemma length_climb_step [simp]: "length (climb_step integ az hz c roc) = length roc"
  by (simp add: climb_step_def Let_def)

lemma length_descent_step [simp]: "length (descent_step integ az hz d roc) = length roc"
  by (simp add: descent_step_def Let_def)

lemma climb_step_above:
  assumes "fst c \<le> snd c" and "snd c \<le> k" and "k < length roc"
  shows "climb_step integ az hz c roc ! k = roc ! k"
proof -
  from assms have "\<not> k < fst c - 5 * hz" and "\<not> k < fst c" and "\<not> k < snd c" by arith+
  with assms(3) show ?thesis
    by (simp add: climb_step_def Let_def nth_set_slice nth_fill_slice)
qed

lemma descent_step_below:
  assumes "fst d \<le> snd d" and "k < fst d" and "k < length roc"
  shows "descent_step integ az hz d roc ! k = roc ! k"
proof -
  from assms have "\<not> fst d \<le> k" and "\<not> snd d + 5 * hz \<le> k" by arith+
  with assms(3) show ?thesis
    by (simp add: descent_step_def Let_def nth_set_slice nth_fill_slice)
qed

lemma length_linspace [simp]: "length (linspace a b n) = n"
  by (simp add: linspace_def)

lemma linspace_first: "0 < n \<Longrightarrow> linspace a b n ! 0 = a"
  by (simp add: linspace_def)

lemma linspace_last: "2 \<le> n \<Longrightarrow> linspace a b n ! (n - 1) = b"
proof -
  assume n: "2 \<le> n"
  then have r: "real (n - 1) \<noteq> 0" by simp
  from n have "linspace a b n ! (n - 1) = a + real (n - 1) * ((b - a) / real (n - 1))"
    by (simp add: linspace_def)
  also have "\<dots> = b" using r by simp
  finally show ?thesis .
qed

lemma climb_step_anchor:
  assumes len: "\<forall>xs. length (integ xs hz) = length xs" and la: "length az = length roc"
    and two: "fst c + 2 \<le> snd c" and stop: "snd c \<le> length roc"
  shows "climb_step integ az hz c roc ! (snd c - 1) = roc ! (snd c - 1)"
proof -
  define lift where "lift = fst c - 5 * hz"
  define up_slope where "up_slope = integ (py_slice az lift (snd c)) hz"
  define e where "e = roc ! (snd c - 1) - last up_slope"
  define n where "n = snd c - fst c"
  define tail where "tail = py_slice up_slope (fst c - lift) (length up_slope)"
  have ll: "lift \<le> fst c" by (simp add: lift_def)
  have lu: "length up_slope = snd c - lift"
    using len stop la by (simp add: up_slope_def)
  have n2: "2 \<le> n" using two by (simp add: n_def)
  have lt: "length tail = n" using ll two by (simp add: tail_def lu n_def)
  have une: "up_slope \<noteq> []" using lu ll two by auto
  have "tail ! (n - 1) = up_slope ! (fst c - lift + (n - 1))"
    unfolding tail_def using ll two lu by (intro nth_py_slice) (simp add: n_def)
  also have "fst c - lift + (n - 1) = length up_slope - 1"
    using ll two lu by (simp add: n_def)
  also have "up_slope ! (length up_slope - 1) = last up_slope"
    using une by (simp add: last_conv_nth)
  finally have tl: "tail ! (n - 1) = last up_slope" .
  have bl: "linspace 0 e n ! (n - 1) = e" by (rule linspace_last [OF n2])
  have idx: "snd c - 1 - fst c = n - 1" by (simp add: n_def)
  have in_range: "fst c \<le> snd c - 1 \<and> snd c - 1 < snd c \<and> snd c - 1 < length roc"
    using two stop by arith
  have "climb_step integ az hz c roc ! (snd c - 1)
      = map (\<lambda>(u, b). u + b) (zip tail (linspace 0 e n)) ! (snd c - 1 - fst c)"
    unfolding tail_def e_def n_def up_slope_def lift_def using in_range
    by (simp add: climb_step_def Let_def nth_set_slice)
  also have "\<dots> = map (\<lambda>(u, b). u + b) (zip tail (linspace 0 e n)) ! (n - 1)"
    by (simp only: idx)
  also have "\<dots> = tail ! (n - 1) + linspace 0 e n ! (n - 1)"
    using n2 lt by simp
  also have "\<dots> = roc ! (snd c - 1)" unfolding tl bl by (simp add: e_def)
  finally show ?thesis .
qed

lemma descent_step_anchor:
  assumes len: "\<forall>xs. length (integ xs hz) = length xs" and la: "length az = length roc"
    and wf: "fst d < snd d" and start: "fst d < length roc"
  shows "descent_step integ az hz d roc ! (fst d) = roc ! (fst d)"
proof -
  define down_slope where "down_slope = integ (py_slice az (fst d) (snd d + 5 * hz)) hz"
  define blend where "blend = roc ! (fst d) - hd down_slope"
  have ld: "length down_slope = min (length roc) (snd d + 5 * hz) - fst d"
    using len la by (simp add: down_slope_def)
  then have pos: "0 < length down_slope" using wf start by simp
  then have hd0: "hd down_slope = down_slope ! 0" by (simp add: hd_conv_nth)
  have "descent_step integ az hz d roc ! (fst d)
      = map (\<lambda>(u, b). u + b)
          (zip down_slope (linspace blend (- last down_slope) (length down_slope))) ! 0"
    using wf start
    by (simp add: descent_step_def Let_def nth_set_slice nth_fill_slice
        down_slope_def [symmetric] blend_def [symmetric])
  also have "\<dots> = down_slope ! 0 + linspace blend (- last down_slope) (length down_slope) ! 0"
    using pos by simp
  also have "\<dots> = roc ! (fst d)" using pos by (simp add: linspace_first blend_def hd0)
  finally show ?thesis .
qed

lemma length_fold_climb [simp]:
  "length (fold (climb_step integ az hz) cs roc) = length roc"
  by (induction cs arbitrary: roc) simp_all

lemma length_fold_descent [simp]:
  "length (fold (descent_step integ az hz) ds roc) = length roc"
  by (induction ds arbitrary: roc) simp_all

lemma fold_climb_above:
  assumes "\<forall>c\<in>set cs. fst c \<le> snd c \<and> snd c \<le> k" and "k < length roc"
  shows "fold (climb_step integ az hz) cs roc ! k = roc ! k"
  using assms by (induction cs arbitrary: roc) (simp_all add: climb_step_above)

lemma fold_descent_below:
  assumes "\<forall>d\<in>set ds. fst d \<le> snd d \<and> k < fst d" and "k < length roc"
  shows "fold (descent_step integ az hz) ds roc ! k = roc ! k"
  using assms by (induction ds arbitrary: roc) (simp_all add: descent_step_below)

lemma length_integrate_from [simp]: "length (integrate_from k acc prev xs) = length xs"
  by (induction xs arbitrary: acc prev) simp_all

lemma length_integrate [simp]: "length (integrate xs hz) = length xs"
  by (cases xs) (simp_all add: integrate_def)








text \<open>A descent band zeroes every sample from five seconds after its end on.\<close>

lemma descent_step_wipes:
  assumes "snd d + 5 * hz \<le> k" and "k < length roc"
  shows "descent_step integ az hz d roc ! k = 0"
  using assms by (simp add: descent_step_def Let_def fill_slice_def)

section \<open>Properties of the compositor\<close>

text \<open>
  C9.  In \<open>land\<close> mode, when the radio altitude has at least one valid section within
  [0.1, 100] ft but no such section holds a sample above \<open>BOUNCED_LANDING_THRESHOLD\<close>,
  the list \<open>bounce_sections\<close> is empty and \<open>bounce_sections[0]\<close> raises \<open>IndexError\<close>,
  which \<open>compute_aal\<close> does not catch.
\<close>

theorem compute_aal_land_no_bounce_IndexError:
  assumes "ma_count alt_rad \<noteq> 0"
    and "clump_unmasked (masked_outside (ma_maximum0 alt_rad) (1 / 10) 100) \<noteq> []"
    and "\<forall>y \<in> set (clump_unmasked (masked_outside (ma_maximum0 alt_rad) (1 / 10) 100)).
           \<not> any_above alt_rad thr y"
  shows "compute_aal liftoff thr Land alt_std low_hb high_gnd (Some alt_rad) = Inl IndexError"
  using assms by (simp add: compute_aal_def Let_def filter_empty_conv)

theorem compute_aal_land_no_bounce_IndexError_witness:
  "compute_aal (\<lambda>_. None) 2 Land [Some 0, Some 50, Some 500] 0 0
     (Some [Some 0, Some 1, Some 500]) = Inl IndexError"
  using compute_aal_land_no_bounce_IndexError
    [where alt_rad = "[Some 0, Some 1, Some 500]" and thr = 2 and liftoff = "\<lambda>_. None"
       and alt_std = "[Some 0, Some 50, Some 500]" and low_hb = 0 and high_gnd = 0]
  by (simp add: ma_defs any_above_def)

text \<open>
  C10.  For a dip of type \<open>over_gnd\<close> whose lowest pressure altitude exceeds the estimated
  highest ground by more than 100 ft, \<open>compute_aal\<close> returns \<open>alt_std - highest_ground\<close>
  for the whole dip: unclamped, and whatever the radio altitude is (absent, all masked, or
  with valid samples within [0.1, 100] ft).
\<close>

theorem compute_aal_over_gnd_high_unclamped:
  assumes "md = OverGnd" and "low_hb - high_gnd > 100"
  shows "compute_aal liftoff thr md alt_std low_hb high_gnd alt_rad_opt
           = Inr (ma_sub_scalar alt_std high_gnd)"
  using assms by (simp add: compute_aal_def Let_def split: option.splits)

theorem compute_aal_over_gnd_high_unclamped_witness:
  "(5000::real) - 4850 > 100 \<and>
   compute_aal (\<lambda>_. None) 2 OverGnd [Some 5000, Some 4000] 5000 4850
     (Some [Some 50, Some 2000]) = Inr [Some 150, Some (- 850)]"
  using compute_aal_over_gnd_high_unclamped
    [where md = OverGnd and low_hb = 5000 and high_gnd = 4850 and liftoff = "\<lambda>_. None"
       and thr = 2 and alt_std = "[Some 5000, Some 4000]"
       and alt_rad_opt = "Some [Some 50, Some 2000]"]
  by (simp add: ma_sub_scalar_def)

text \<open>
  C3 (amended).  For a non-empty dip whose radio-altitude samples are all valid and all
  within [0.1, 100] ft, \<open>compute_aal\<close> returns exactly the clipped radio altitude at every
  index, provided that the mean of pressure altitude minus radio altitude over the dip is
  not above 10,000 ft, that in \<open>land\<close> mode some sample exceeds the bounced-landing
  threshold, and that in \<open>over_gnd\<close> mode \<open>low_hb - high_gnd\<close> is at most 100 ft.
\<close>

theorem compute_aal_all_in_band:
  assumes band: "\<forall>x\<in>set alt_rad. \<exists>v. x = Some v \<and> 1 / 10 \<le> v \<and> v \<le> 100"
    and ne: "alt_rad \<noteq> []"
    and len: "length alt_rad = length alt_std"
    and mean: "\<not> mean_error_exceeds alt_std (ma_maximum0 alt_rad) (0, length alt_std)"
    and bounce: "md = Land \<longrightarrow> any_above alt_rad thr (0, length alt_rad)"
    and og: "md = OverGnd \<longrightarrow> low_hb - high_gnd \<le> 100"
  shows "compute_aal liftoff thr md alt_std low_hb high_gnd (Some alt_rad)
           = Inr (ma_maximum0 alt_rad)"
proof -
  have valid: "\<forall>x\<in>set alt_rad. x \<noteq> None" using band by auto
  have clip: "ma_maximum0 alt_rad = alt_rad" by (rule in_band_clip(1) [OF band])
  have sections: "clump_unmasked (masked_outside (ma_maximum0 alt_rad) (1 / 10) 100)
      = [(0, length alt_std)]"
    by (simp add: clip in_band_clip(2) [OF band] clump_unmasked_all_valid [OF ne valid] len)
  have cnt: "ma_count alt_rad \<noteq> 0" by (rule ma_count_pos [OF ne valid])
  have st: "\<And>res. length res = length alt_std \<Longrightarrow>
      stitch [(0, length alt_std)] alt_rad alt_std res = alt_rad"
    using stitch_whole [of alt_rad alt_std] len mean clip by simp
  show ?thesis
  proof (cases "md = Land")
    case True
    with bounce have "any_above alt_rad thr (0, length alt_std)" by (simp add: len)
    then show ?thesis
      using True cnt sections st
      by (simp add: compute_aal_def Let_def clip np_ma_zeros_like_def)
  next
    case False
    then show ?thesis
      using cnt sections og st
      by (auto simp: compute_aal_def Let_def clip np_ma_zeros_like_def)
  qed
qed

theorem compute_aal_all_in_band_witness:
  "compute_aal (\<lambda>_. None) 2 Land [Some 1000, Some 1040] 1000 1000
     (Some [Some 10, Some 50]) = Inr [Some 10, Some 50]"
  using compute_aal_all_in_band
    [where alt_rad = "[Some 10, Some 50]" and alt_std = "[Some 1000, Some 1040]"
       and md = Land and thr = 2 and low_hb = 1000 and high_gnd = 1000
       and liftoff = "\<lambda>_. None"]
  by (simp add: ma_defs mean_error_exceeds_def any_above_def)

text \<open>
  C3 as stated fails: an \<open>over_gnd\<close> dip over terrain at 12,950 ft pressure altitude, with
  the radio altitude valid at 50 ft throughout; the mean disagreement of 12,950 ft makes
  the loop skip the only radio section and the result is all zeros, not the radio altitude.
\<close>

theorem compute_aal_all_in_band_counterexample:
  "list_all (\<lambda>x. case x of None \<Rightarrow> False | Some v \<Rightarrow> 1 / 10 \<le> v \<and> v \<le> 100)
     [Some 50, Some (50::real)] \<and>
   compute_aal (\<lambda>_. None) 2 OverGnd [Some 13000, Some 13000] 13000 12950
     (Some [Some 50, Some 50]) = Inr [Some 0, Some 0] \<and>
   ma_maximum0 [Some 50, Some 50] = [Some 50, Some 50]"
  by (simp add: ma_defs aal_defs)

text \<open>
  C7 (amended).  For every radio section whose mean of pressure altitude minus radio
  altitude is above 10,000 ft, the loop skips the section (\<open>continue\<close>): the step leaves
  the result exactly as it was, and there is no fall-back to the pressure-altitude shift.
  This holds in every mode and whatever the other sections do.  When every radio section
  of a dip that is not of type \<open>land\<close> is skipped, the result is the initial all-zero
  array; when only some are, the result is that of the loop run over the other sections
  alone, with the pressure-only sections as they were computed from all radio sections.
  When the single section \<open>slice(0, hundred_feet)\<close> of a \<open>land\<close> dip is skipped, the
  result is what the bounce processing wrote before the loop: the clipped radio altitude
  from \<open>bounce_end\<close> to \<open>hundred_feet\<close>, and zero elsewhere.
\<close>

theorem compute_aal_sections_skipped:
  "(\<forall>baro y res. mean_error_exceeds alt_std alt_rad_aal y \<longrightarrow>
      stitch_step baro alt_rad_aal alt_std y res = res) \<and>
   (md \<noteq> Land \<and> ma_count alt_rad \<noteq> 0 \<and> \<not> (md = OverGnd \<and> low_hb - high_gnd > 100) \<and>
    clump_unmasked (masked_outside (ma_maximum0 alt_rad) (1 / 10) 100) \<noteq> [] \<and>
    (\<forall>y \<in> set (clump_unmasked (masked_outside (ma_maximum0 alt_rad) (1 / 10) 100)).
        mean_error_exceeds alt_std (ma_maximum0 alt_rad) y)
    \<longrightarrow> compute_aal liftoff thr md alt_std low_hb high_gnd (Some alt_rad)
          = Inr (np_ma_zeros_like alt_std)) \<and>
   (ma_count alt_rad \<noteq> 0 \<and>
    filter (any_above alt_rad thr)
      (clump_unmasked (masked_outside (ma_maximum0 alt_rad) (1 / 10) 100)) \<noteq> [] \<and>
    mean_error_exceeds alt_std (ma_maximum0 alt_rad)
      (0, snd (last (filter (any_above alt_rad thr)
         (clump_unmasked (masked_outside (ma_maximum0 alt_rad) (1 / 10) 100)))))
    \<longrightarrow> compute_aal liftoff thr Land alt_std low_hb high_gnd (Some alt_rad)
          = Inr (fill_slice
                   (set_slice (np_ma_zeros_like alt_std)
                      (fst (hd (filter (any_above alt_rad thr)
                         (clump_unmasked (masked_outside (ma_maximum0 alt_rad) (1 / 10) 100)))))
                      (snd (last (filter (any_above alt_rad thr)
                         (clump_unmasked (masked_outside (ma_maximum0 alt_rad) (1 / 10) 100)))))
                      (py_slice (ma_maximum0 alt_rad)
                         (fst (hd (filter (any_above alt_rad thr)
                            (clump_unmasked (masked_outside (ma_maximum0 alt_rad) (1 / 10) 100)))))
                         (snd (last (filter (any_above alt_rad thr)
                            (clump_unmasked (masked_outside (ma_maximum0 alt_rad) (1 / 10) 100)))))))
                   0
                   (fst (hd (filter (any_above alt_rad thr)
                      (clump_unmasked (masked_outside (ma_maximum0 alt_rad) (1 / 10) 100)))))
                   (Some 0))) \<and>
   (md \<noteq> Land \<and> ma_count alt_rad \<noteq> 0 \<and> \<not> (md = OverGnd \<and> low_hb - high_gnd > 100) \<and>
    clump_unmasked (masked_outside (ma_maximum0 alt_rad) (1 / 10) 100) \<noteq> []
    \<longrightarrow> compute_aal liftoff thr md alt_std low_hb high_gnd (Some alt_rad)
          = Inr (fold
                   (stitch_step
                      (slices_not (clump_unmasked (masked_outside (ma_maximum0 alt_rad) (1 / 10) 100))
                         0 (length alt_std))
                      (ma_maximum0 alt_rad) alt_std)
                   (filter (\<lambda>y. \<not> mean_error_exceeds alt_std (ma_maximum0 alt_rad) y)
                      (clump_unmasked (masked_outside (ma_maximum0 alt_rad) (1 / 10) 100)))
                   (np_ma_zeros_like alt_std)))"
proof (intro conjI allI impI)
  fix baro y res
  assume "mean_error_exceeds alt_std alt_rad_aal y"
  then show "stitch_step baro alt_rad_aal alt_std y res = res" by (rule stitch_step_skipped)
next
  assume "md \<noteq> Land \<and> ma_count alt_rad \<noteq> 0 \<and> \<not> (md = OverGnd \<and> low_hb - high_gnd > 100) \<and>
    clump_unmasked (masked_outside (ma_maximum0 alt_rad) (1 / 10) 100) \<noteq> [] \<and>
    (\<forall>y \<in> set (clump_unmasked (masked_outside (ma_maximum0 alt_rad) (1 / 10) 100)).
        mean_error_exceeds alt_std (ma_maximum0 alt_rad) y)"
  then show "compute_aal liftoff thr md alt_std low_hb high_gnd (Some alt_rad)
          = Inr (np_ma_zeros_like alt_std)"
    by (auto simp: compute_aal_def Let_def stitch_def stitch_all_skipped)
next
  define bs where "bs = filter (any_above alt_rad thr)
      (clump_unmasked (masked_outside (ma_maximum0 alt_rad) (1 / 10) 100))"
  assume "ma_count alt_rad \<noteq> 0 \<and>
    filter (any_above alt_rad thr)
      (clump_unmasked (masked_outside (ma_maximum0 alt_rad) (1 / 10) 100)) \<noteq> [] \<and>
    mean_error_exceeds alt_std (ma_maximum0 alt_rad)
      (0, snd (last (filter (any_above alt_rad thr)
         (clump_unmasked (masked_outside (ma_maximum0 alt_rad) (1 / 10) 100)))))"
  then have a: "ma_count alt_rad \<noteq> 0" and b: "bs \<noteq> []"
    and c: "mean_error_exceeds alt_std (ma_maximum0 alt_rad) (0, snd (last bs))"
    by (simp_all add: bs_def)
  from b have d: "clump_unmasked (masked_outside (ma_maximum0 alt_rad) (1 / 10) 100) \<noteq> []"
    by (auto simp: bs_def)
  have "compute_aal liftoff thr Land alt_std low_hb high_gnd (Some alt_rad)
          = Inr (fill_slice
                   (set_slice (np_ma_zeros_like alt_std) (fst (hd bs)) (snd (last bs))
                      (py_slice (ma_maximum0 alt_rad) (fst (hd bs)) (snd (last bs))))
                   0 (fst (hd bs)) (Some 0))"
    using a b c d
    by (simp add: compute_aal_def Let_def stitch_def stitch_step_skipped bs_def [symmetric])
  then show "compute_aal liftoff thr Land alt_std low_hb high_gnd (Some alt_rad)
          = Inr (fill_slice
                   (set_slice (np_ma_zeros_like alt_std)
                      (fst (hd (filter (any_above alt_rad thr)
                         (clump_unmasked (masked_outside (ma_maximum0 alt_rad) (1 / 10) 100)))))
                      (snd (last (filter (any_above alt_rad thr)
                         (clump_unmasked (masked_outside (ma_maximum0 alt_rad) (1 / 10) 100)))))
                      (py_slice (ma_maximum0 alt_rad)
                         (fst (hd (filter (any_above alt_rad thr)
                            (clump_unmasked (masked_outside (ma_maximum0 alt_rad) (1 / 10) 100)))))
                         (snd (last (filter (any_above alt_rad thr)
                            (clump_unmasked (masked_outside (ma_maximum0 alt_rad) (1 / 10) 100)))))))
                   0
                   (fst (hd (filter (any_above alt_rad thr)
                      (clump_unmasked (masked_outside (ma_maximum0 alt_rad) (1 / 10) 100)))))
                   (Some 0))"
    by (simp add: bs_def)
next
  assume "md \<noteq> Land \<and> ma_count alt_rad \<noteq> 0 \<and> \<not> (md = OverGnd \<and> low_hb - high_gnd > 100) \<and>
    clump_unmasked (masked_outside (ma_maximum0 alt_rad) (1 / 10) 100) \<noteq> []"
  then show "compute_aal liftoff thr md alt_std low_hb high_gnd (Some alt_rad)
          = Inr (fold
                   (stitch_step
                      (slices_not (clump_unmasked (masked_outside (ma_maximum0 alt_rad) (1 / 10) 100))
                         0 (length alt_std))
                      (ma_maximum0 alt_rad) alt_std)
                   (filter (\<lambda>y. \<not> mean_error_exceeds alt_std (ma_maximum0 alt_rad) y)
                      (clump_unmasked (masked_outside (ma_maximum0 alt_rad) (1 / 10) 100)))
                   (np_ma_zeros_like alt_std))"
    using fold_stitch_step_unskipped
      [of "slices_not (clump_unmasked (masked_outside (ma_maximum0 alt_rad) (1 / 10) 100))
             0 (length alt_std)" "ma_maximum0 alt_rad" alt_std
          "clump_unmasked (masked_outside (ma_maximum0 alt_rad) (1 / 10) 100)"
          "np_ma_zeros_like alt_std"]
    by (auto simp: compute_aal_def Let_def stitch_def)
qed

theorem compute_aal_sections_skipped_witness:
  "stitch_step [(2, 3)] [Some 0, Some 50, Some 500] [Some 13000, Some 13050, Some 13500] (0, 2)
     [Some 0, Some 50, Some 0] = [Some 0, Some 50, Some 0] \<and>
   compute_aal (\<lambda>_. None) 2 OverGnd [Some 13000, Some 13100] 13000 12950
     (Some [Some 50, Some 50]) = Inr [Some 0, Some 0] \<and>
   compute_aal (\<lambda>_. None) 2 Land [Some 13000, Some 13050, Some 13500] 13000 13000
     (Some [Some 0, Some 50, Some 500]) = Inr [Some 0, Some 50, Some 0] \<and>
   compute_aal (\<lambda>_. None) 2 High [Some 13000, Some 13010, Some 20000, Some 100] 0 0
     (Some [Some 50, Some 50, None, Some 60]) = Inr [Some 40, Some 50, None, Some 60]"
proof -
  note T3 = compute_aal_sections_skipped [where alt_rad = "[Some 50, Some 50, None, Some 60]"
      and alt_std = "[Some 13000, Some 13010, Some 20000, Some 100]"
      and md = High and thr = 2 and low_hb = 0 and high_gnd = 0
      and liftoff = "\<lambda>_. None" and alt_rad_aal = "[Some 50, Some 50, None, Some 60]"]
  note T1 = compute_aal_sections_skipped [where alt_rad = "[Some 50, Some 50]" and alt_std = "[Some 13000, Some 13100]"
      and md = OverGnd and thr = 2 and low_hb = 13000 and high_gnd = 12950
      and liftoff = "\<lambda>_. None" and alt_rad_aal = "[Some 50, Some 50]"]
  note T2 = compute_aal_sections_skipped [where alt_rad = "[Some 0, Some 50, Some 500]"
      and alt_std = "[Some 13000, Some 13050, Some 13500]"
      and md = Land and thr = 2 and low_hb = 13000 and high_gnd = 13000
      and liftoff = "\<lambda>_. None" and alt_rad_aal = "[Some 0, Some 50, Some 500]"]
  from T2 have "\<forall>baro y res.
      mean_error_exceeds [Some 13000, Some 13050, Some 13500] [Some 0, Some 50, Some 500] y \<longrightarrow>
      stitch_step baro [Some 0, Some 50, Some 500] [Some 13000, Some 13050, Some 13500] y res
        = res" by (rule conjunct1)
  from this [rule_format, of "(0, 2)" "[(2, 3)]" "[Some 0, Some 50, Some 0]"]
  have a: "stitch_step [(2, 3)] [Some 0, Some 50, Some 500]
      [Some 13000, Some 13050, Some 13500] (0, 2) [Some 0, Some 50, Some 0]
      = [Some 0, Some 50, Some 0]"
    by (simp add: ma_defs mean_error_exceeds_def)
  from T1 have b: "compute_aal (\<lambda>_. None) 2 OverGnd [Some 13000, Some 13100] 13000 12950
     (Some [Some 50, Some 50]) = Inr [Some 0, Some 0]"
    by (simp add: ma_defs mean_error_exceeds_def)
  from T2 have c: "compute_aal (\<lambda>_. None) 2 Land [Some 13000, Some 13050, Some 13500] 13000
     13000 (Some [Some 0, Some 50, Some 500]) = Inr [Some 0, Some 50, Some 0]"
    by (simp add: ma_defs mean_error_exceeds_def any_above_def)
  from T3 [THEN conjunct2, THEN conjunct2, THEN conjunct2]
  have d: "compute_aal (\<lambda>_. None) 2 High [Some 13000, Some 13010, Some 20000, Some 100] 0 0
     (Some [Some 50, Some 50, None, Some 60]) = Inr [Some 40, Some 50, None, Some 60]"
    by (simp add: ma_defs mean_error_exceeds_def stitch_step_def link_all_def
        link_baro_rad_fwd_def link_baro_rad_rev_def)
  show ?thesis by (intro conjI a b c d)
qed

text \<open>
  C7 as stated fails: a take-off from an airfield at 13,000 ft pressure altitude.  The only
  radio section has a mean disagreement of 13,000 ft and is skipped; the result
  \<open>[0, 50, 0]\<close> is not the shifted pressure altitude, whatever liftoff point the shift
  would use.
\<close>

theorem compute_aal_no_fallback_counterexample:
  "\<not> (\<exists>liftoff. compute_aal liftoff 2 Land [Some 13000, Some 13050, Some 13500] 13000 13000
          (Some [Some 0, Some 50, Some 500])
        = shift_alt_std liftoff [Some 13000, Some 13050, Some 13500])"
proof
  assume "\<exists>liftoff. compute_aal liftoff 2 Land [Some 13000, Some 13050, Some 13500] 13000 13000
          (Some [Some 0, Some 50, Some 500])
        = shift_alt_std liftoff [Some 13000, Some 13050, Some 13500]"
  then obtain liftoff where
    "compute_aal liftoff 2 Land [Some 13000, Some 13050, Some 13500] 13000 13000
          (Some [Some 0, Some 50, Some 500])
        = shift_alt_std liftoff [Some 13000, Some 13050, Some 13500]" ..
  moreover have "compute_aal liftoff 2 Land [Some 13000, Some 13050, Some 13500] 13000 13000
          (Some [Some 0, Some 50, Some 500]) = Inr [Some 0, Some 50, Some 0]"
    by (simp add: ma_defs aal_defs)
  ultimately have eq: "shift_alt_std liftoff [Some 13000, Some 13050, Some 13500]
      = Inr [Some 0, Some 50, Some 0]" by simp
  show False
  proof (cases "case liftoff [Some 13000, Some 13050, Some 13500] of
                  Some p \<Rightarrow> p | None \<Rightarrow> ma_min [Some 13000, Some 13050, Some 13500]")
    case None
    with eq show False by (simp add: shift_alt_std_def)
  next
    case (Some p)
    with eq have "max 0 (13050 - p) = 50" and "max 0 (13500 - p) = 0"
      by (simp_all add: shift_alt_std_def ma_maximum0_def ma_sub_scalar_def)
    then show False by (simp add: max_def split: if_splits)
  qed
qed




section \<open>Properties of the dip classifier\<close>

text \<open>
  C5 (amended).  The pass over the dips leaves every dip that is not of type \<open>high\<close> as it
  is.  For a dip of type \<open>high\<close>: the first dip, when others follow, gets the ground
  estimate \<open>this altitude - next altitude + next ground\<close>; when it is the only dip, its ground
  estimate is left as it is and its altitude \<open>alt_std\<close> is set to the ground estimate plus
  1000 ft; the last dip gets \<open>this altitude - previous altitude + previous ground\<close>; every
  interior dip gets the minimum of the previous dip's ground, this dip's altitude minus
  1000 ft and the next dip's ground.  The previous dip is read as the pass has left it.
\<close>

theorem post_pass_high_ground:
  assumes n: "n < length dips"
  shows "length (post_pass dips) = length dips \<and>
    (dip_type (dips ! n) \<noteq> High \<longrightarrow> post_pass dips ! n = dips ! n) \<and>
    (dip_type (dips ! n) = High \<longrightarrow>
      (length dips = 1 \<longrightarrow>
         post_pass dips ! n = (dips ! n)\<lparr>dip_alt_std := dip_highest_ground (dips ! n) + 1000\<rparr>) \<and>
      (n = 0 \<and> length dips > 1 \<longrightarrow>
         post_pass dips ! n = (dips ! n)\<lparr>dip_highest_ground :=
           dip_alt_std (dips ! n) - dip_alt_std (dips ! 1) + dip_highest_ground (dips ! 1)\<rparr>) \<and>
      (0 < n \<and> n = length dips - 1 \<longrightarrow>
         post_pass dips ! n = (dips ! n)\<lparr>dip_highest_ground :=
           dip_alt_std (dips ! n) - dip_alt_std (post_pass dips ! (n - 1))
             + dip_highest_ground (post_pass dips ! (n - 1))\<rparr>) \<and>
      (0 < n \<and> n < length dips - 1 \<longrightarrow>
         post_pass dips ! n = (dips ! n)\<lparr>dip_highest_ground :=
           min (dip_highest_ground (post_pass dips ! (n - 1)))
               (min (dip_alt_std (dips ! n) - 1000) (dip_highest_ground (dips ! (n + 1))))\<rparr>))"
proof -
  define P where "P = post_pass_upto dips n"
  have len: "length (post_pass dips) = length dips"
    by (simp add: post_pass_def post_pass_upto_def [symmetric])
  have cur: "P ! n = dips ! n" by (simp add: P_def post_pass_upto_later)
  have nxt: "P ! (n + 1) = dips ! (n + 1)" by (simp add: P_def post_pass_upto_later)
  have prv: "0 < n \<Longrightarrow> P ! (n - 1) = post_pass dips ! (n - 1)"
    unfolding P_def using post_pass_prev [of n dips] n by simp
  have lenP: "length P = length dips" by (simp add: P_def)
  have out: "post_pass dips ! n = post_pass_step P n ! n"
    unfolding P_def by (rule post_pass_nth [OF n])
  have upd: "\<And>d. (P[n := d]) ! n = d" using n lenP by simp
  have nonhigh: "dip_type (dips ! n) \<noteq> High \<Longrightarrow> post_pass dips ! n = dips ! n"
    using out cur by (simp add: post_pass_step_def Let_def)
  have only: "dip_type (dips ! n) = High \<Longrightarrow> length dips = 1 \<Longrightarrow>
      post_pass dips ! n = (dips ! n)\<lparr>dip_alt_std := dip_highest_ground (dips ! n) + 1000\<rparr>"
    using n out cur lenP upd by (simp add: post_pass_step_def Let_def)
  have first: "dip_type (dips ! n) = High \<Longrightarrow> n = 0 \<and> length dips > 1 \<Longrightarrow>
      post_pass dips ! n = (dips ! n)\<lparr>dip_highest_ground :=
           dip_alt_std (dips ! n) - dip_alt_std (dips ! 1) + dip_highest_ground (dips ! 1)\<rparr>"
    using n out cur nxt lenP upd by (simp add: post_pass_step_def Let_def)
  have last: "dip_type (dips ! n) = High \<Longrightarrow> 0 < n \<and> n = length dips - 1 \<Longrightarrow>
      post_pass dips ! n = (dips ! n)\<lparr>dip_highest_ground :=
           dip_alt_std (dips ! n) - dip_alt_std (post_pass dips ! (n - 1))
             + dip_highest_ground (post_pass dips ! (n - 1))\<rparr>"
    using n out cur prv lenP upd by (simp add: post_pass_step_def Let_def)
  have inner: "dip_type (dips ! n) = High \<Longrightarrow> 0 < n \<and> n < length dips - 1 \<Longrightarrow>
      post_pass dips ! n = (dips ! n)\<lparr>dip_highest_ground :=
           min (dip_highest_ground (post_pass dips ! (n - 1)))
               (min (dip_alt_std (dips ! n) - 1000) (dip_highest_ground (dips ! (n + 1))))\<rparr>"
    using n out cur prv nxt lenP upd by (simp add: post_pass_step_def Let_def)
  show ?thesis
    using len nonhigh only first last inner by blast
qed


theorem post_pass_high_ground_witness:
  "post_pass
     [\<lparr>dip_type = Land, dip_slice = Fwd (Some 0) (Some 10), dip_alt_std = 100,
        dip_highest_ground = 100\<rparr>,
      \<lparr>dip_type = High, dip_slice = Fwd (Some 10) (Some 30), dip_alt_std = 3000,
        dip_highest_ground = 3000\<rparr>,
      \<lparr>dip_type = Land, dip_slice = Rev (Some 40) (Some 29), dip_alt_std = 200,
        dip_highest_ground = 200\<rparr>] ! 1
   = \<lparr>dip_type = High, dip_slice = Fwd (Some 10) (Some 30), dip_alt_std = 3000,
        dip_highest_ground = 100\<rparr>"
  using post_pass_high_ground [where n = 1 and dips =
     "[\<lparr>dip_type = Land, dip_slice = Fwd (Some 0) (Some 10), dip_alt_std = 100,
        dip_highest_ground = 100\<rparr>,
      \<lparr>dip_type = High, dip_slice = Fwd (Some 10) (Some 30), dip_alt_std = 3000,
        dip_highest_ground = 3000\<rparr>,
      \<lparr>dip_type = Land, dip_slice = Rev (Some 40) (Some 29), dip_alt_std = 200,
        dip_highest_ground = 200\<rparr>]"]
  by (simp add: post_pass_def post_pass_step_def)

text \<open>
  C5 as stated fails for a dip of type \<open>high\<close> that is the only dip: its ground estimate is
  not replaced and no offset is applied to it; the offset goes into \<open>alt_std\<close>.
\<close>

theorem post_pass_only_dip_counterexample:
  "dip_highest_ground
     (post_pass [\<lparr>dip_type = High, dip_slice = Fwd (Some 0) (Some 10), dip_alt_std = 3000,
                   dip_highest_ground = 3000\<rparr>] ! 0) = 3000 \<and>
   dip_highest_ground
     (post_pass [\<lparr>dip_type = High, dip_slice = Fwd (Some 0) (Some 10), dip_alt_std = 3000,
                   dip_highest_ground = 3000\<rparr>] ! 0) \<noteq> 3000 + 1000 \<and>
   dip_alt_std
     (post_pass [\<lparr>dip_type = High, dip_slice = Fwd (Some 0) (Some 10), dip_alt_std = 3000,
                   dip_highest_ground = 3000\<rparr>] ! 0) = 4000"
  by (simp add: post_pass_def post_pass_step_def)

text \<open>
  C8 does not hold of the code: the dips need not partition the \<open>Fast\<close> section.  The
  slice of the final descent is \<open>slice(quick.stop, alt_idx - 1, -1)\<close>; reversed, its first
  index is \<open>quick.stop\<close> itself, one past the last sample of the section (the line it
  replaced, kept in a comment, started at \<open>next_alt_idx - 1\<close>).  For the \<open>Fast\<close> section
  \<open>slice(0, 5)\<close> of an array of six samples the last dip covers the indices 5, 4 and 3,
  while the section covers 0 to 4; and \<open>derive\<close> writes 20 ft at index 5, a sample of no
  \<open>Fast\<close> section, which it never resets.
\<close>

theorem build_dips_final_land_covers_stop:
  "build_dips \<lparr>q_start = Some 0, q_stop = Some 5\<rparr>
     [Some 0, Some 5000, Some 4000, Some 5000, Some 0, Some 20]
     (Some [Some 0, Some 150, Some 2000, Some 2000, Some 0, Some 0])
     [(0, 0), (1, 5000), (2, 4000), (3, 5000), (4, 0)] 0 []
   = Inr [\<lparr>dip_type = Land, dip_slice = Fwd (Some 0) (Some 1), dip_alt_std = 0,
            dip_highest_ground = 0\<rparr>,
          \<lparr>dip_type = OverGnd, dip_slice = Fwd (Some 1) (Some 3), dip_alt_std = 5000,
            dip_highest_ground = 4850\<rparr>,
          \<lparr>dip_type = Land, dip_slice = Rev (Some 5) (Some 2), dip_alt_std = 0,
            dip_highest_ground = 0\<rparr>] \<and>
   slice_indices (Rev (Some 5) (Some 2)) 6 = [5, 4, 3] \<and>
   slice_indices (q_slice \<lparr>q_start = Some 0, q_stop = Some 5\<rparr>) 6 = [0, 1, 2, 3, 4] \<and>
   derive (\<lambda>_. None) 2 (\<lambda>_. Some [(0, 0), (1, 5000), (2, 4000), (3, 5000), (4, 0)]) None
     [Some 0, Some 5000, Some 4000, Some 5000, Some 0, Some 20]
     [\<lparr>q_start = Some 0, q_stop = Some 5\<rparr>]
   = Inr [Some 0, Some 5000, Some 4000, Some 5000, Some 0, Some 20]"
proof (intro conjI)
  show "build_dips \<lparr>q_start = Some 0, q_stop = Some 5\<rparr>
     [Some 0, Some 5000, Some 4000, Some 5000, Some 0, Some 20]
     (Some [Some 0, Some 150, Some 2000, Some 2000, Some 0, Some 0])
     [(0, 0), (1, 5000), (2, 4000), (3, 5000), (4, 0)] 0 []
   = Inr [\<lparr>dip_type = Land, dip_slice = Fwd (Some 0) (Some 1), dip_alt_std = 0,
            dip_highest_ground = 0\<rparr>,
          \<lparr>dip_type = OverGnd, dip_slice = Fwd (Some 1) (Some 3), dip_alt_std = 5000,
            dip_highest_ground = 4850\<rparr>,
          \<lparr>dip_type = Land, dip_slice = Rev (Some 5) (Some 2), dip_alt_std = 0,
            dip_highest_ground = 0\<rparr>]"
    by (simp add: build_dips.simps down_up_section_def radio_in_section_def section_hg_max_def
        get_slice_def adjust_def ma_argmin_def ma_min_def compressed_def ma_count_def
        upto.simps)
  show "slice_indices (Rev (Some 5) (Some 2)) 6 = [5, 4, 3]"
    by (simp add: adjust_def upto.simps)
  show "slice_indices (q_slice \<lparr>q_start = Some 0, q_stop = Some 5\<rparr>) 6 = [0, 1, 2, 3, 4]"
    by (simp add: adjust_def q_slice_def upto.simps)
  show "derive (\<lambda>_. None) 2 (\<lambda>_. Some [(0, 0), (1, 5000), (2, 4000), (3, 5000), (4, 0)]) None
     [Some 0, Some 5000, Some 4000, Some 5000, Some 0, Some 20]
     [\<lparr>q_start = Some 0, q_stop = Some 5\<rparr>]
   = Inr [Some 0, Some 5000, Some 4000, Some 5000, Some 0, Some 20]"
    by (simp add: derive_defs ma_defs aal_defs)
qed

text \<open>
  What the loop does keep: when the extrema of a \<open>Fast\<close> section strictly alternate and
  no down and up section is dropped, it raises no error, consecutive dips share a boundary
  index (each dip starts where the one before it stops), and only the first and the last
  dip can be of type \<open>land\<close>.
\<close>

theorem build_dips_chained:
  assumes "alternating ext" and "none_dropped alt_std alt_rad ext"
  shows "\<exists>dips. build_dips quick alt_std alt_rad ext 0 [] = Inr dips \<and> chained dips \<and>
           only_ends_land dips"
  by (rule build_dips_good [OF assms]) (simp add: build_inv_def)


theorem build_dips_chained_witness:
  "build_dips \<lparr>q_start = Some 0, q_stop = Some 5\<rparr>
     [Some 0, Some 5000, Some 4000, Some 5000, Some 0]
     (Some [Some 0, Some 150, Some 2000, Some 2000, Some 0])
     [(0, 0), (1, 5000), (2, 4000), (3, 5000), (4, 0)] 0 []
   = Inr [\<lparr>dip_type = Land, dip_slice = Fwd (Some 0) (Some 1), dip_alt_std = 0,
            dip_highest_ground = 0\<rparr>,
          \<lparr>dip_type = OverGnd, dip_slice = Fwd (Some 1) (Some 3), dip_alt_std = 5000,
            dip_highest_ground = 4850\<rparr>,
          \<lparr>dip_type = Land, dip_slice = Rev (Some 5) (Some 2), dip_alt_std = 0,
            dip_highest_ground = 0\<rparr>] \<and>
   chained [\<lparr>dip_type = Land, dip_slice = Fwd (Some 0) (Some 1), dip_alt_std = 0,
            dip_highest_ground = 0\<rparr>,
          \<lparr>dip_type = OverGnd, dip_slice = Fwd (Some 1) (Some 3), dip_alt_std = 5000,
            dip_highest_ground = 4850\<rparr>,
          \<lparr>dip_type = Land, dip_slice = Rev (Some 5) (Some 2), dip_alt_std = 0,
            dip_highest_ground = 0\<rparr>] \<and>
   only_ends_land [\<lparr>dip_type = Land, dip_slice = Fwd (Some 0) (Some 1), dip_alt_std = 0,
            dip_highest_ground = 0\<rparr>,
          \<lparr>dip_type = OverGnd, dip_slice = Fwd (Some 1) (Some 3), dip_alt_std = 5000,
            dip_highest_ground = 4850\<rparr>,
          \<lparr>dip_type = Land, dip_slice = Rev (Some 5) (Some 2), dip_alt_std = 0,
            dip_highest_ground = 0\<rparr>]"
proof -
  have ev: "build_dips \<lparr>q_start = Some 0, q_stop = Some 5\<rparr>
     [Some 0, Some 5000, Some 4000, Some 5000, Some 0]
     (Some [Some 0, Some 150, Some 2000, Some 2000, Some 0])
     [(0, 0), (1, 5000), (2, 4000), (3, 5000), (4, 0)] 0 []
   = Inr [\<lparr>dip_type = Land, dip_slice = Fwd (Some 0) (Some 1), dip_alt_std = 0,
            dip_highest_ground = 0\<rparr>,
          \<lparr>dip_type = OverGnd, dip_slice = Fwd (Some 1) (Some 3), dip_alt_std = 5000,
            dip_highest_ground = 4850\<rparr>,
          \<lparr>dip_type = Land, dip_slice = Rev (Some 5) (Some 2), dip_alt_std = 0,
            dip_highest_ground = 0\<rparr>]"
    by (simp add: build_dips.simps down_up_section_def radio_in_section_def section_hg_max_def
        get_slice_def adjust_def ma_argmin_def ma_min_def compressed_def ma_count_def
        upto.simps)
  from build_dips_chained [OF alternating_example none_dropped_example,
      of "\<lparr>q_start = Some 0, q_stop = Some 5\<rparr>"]
  show ?thesis unfolding ev by simp
qed

section \<open>Properties of derive\<close>

text \<open>
  C1 (amended).  When a \<open>Fast\<close> section has been processed, the output has the length of
  the input and is 0 from the first index of the section up to and including the first
  extremum, and from the sample after the last extremum up to the last index of the
  section: so it is 0 at the first index of the section, and at its last index when the
  last extremum lies before that index.  The pressure altitude shifted to the liftoff
  point is clamped: it is non-negative at every valid sample.  The branches of
  \<open>compute_aal\<close> that return \<open>alt_std - high_gnd\<close> are not clamped (C10).
\<close>

theorem process_section_end_resets:
  assumes ok: "process_section liftoff thr alt_std alt_rad quick ext alt_aal = Inr out"
  shows "length out = length alt_aal \<and>
     (\<forall>k. (case q_start quick of None \<Rightarrow> 0 | Some s \<Rightarrow> s) \<le> k \<and>
          k \<le> fst (hd (absolute_extrema quick ext)) \<and> k < length alt_aal
          \<longrightarrow> out ! k = Some 0) \<and>
     (\<forall>k. fst (last (absolute_extrema quick ext)) < k \<and>
          k < (case q_stop quick of None \<Rightarrow> length alt_aal | Some e \<Rightarrow> e) \<and> k < length alt_aal
          \<longrightarrow> out ! k = Some 0) \<and>
     ((case q_start quick of None \<Rightarrow> 0 | Some s \<Rightarrow> s) < length alt_aal
          \<longrightarrow> out ! (case q_start quick of None \<Rightarrow> 0 | Some s \<Rightarrow> s) = Some 0) \<and>
     (\<forall>a res. shift_alt_std liftoff a = Inr res \<longrightarrow>
          (\<forall>x\<in>set res. \<forall>v. x = Some v \<longrightarrow> 0 \<le> v))"
proof -
  from ok obtain dips alt_aal1 where
    w: "write_dips liftoff thr alt_std alt_rad (post_pass dips) alt_aal = Inr alt_aal1"
    and ne: "ext \<noteq> []"
    and out: "out = fill_slice
             (fill_slice alt_aal1 (case q_start quick of None \<Rightarrow> 0 | Some s \<Rightarrow> s)
                (fst (hd (absolute_extrema quick ext)) + 1) (Some 0))
             (fst (last (absolute_extrema quick ext)) + 1)
             (case q_stop quick of None \<Rightarrow> length alt_aal1 | Some e \<Rightarrow> e) (Some 0)"
    by (rule process_section_Inr)
  have l1: "length alt_aal1 = length alt_aal" by (rule length_write_dips [OF w])
  note out = out [unfolded l1]
  have hd_ge: "(case q_start quick of None \<Rightarrow> 0 | Some s \<Rightarrow> s)
      \<le> fst (hd (absolute_extrema quick ext))"
    using ne by (cases ext) (auto simp: absolute_extrema_def split: option.splits)
  have a: "length out = length alt_aal" by (simp add: out l1)
  have b: "\<forall>k. (case q_start quick of None \<Rightarrow> 0 | Some s \<Rightarrow> s) \<le> k \<and>
          k \<le> fst (hd (absolute_extrema quick ext)) \<and> k < length alt_aal
          \<longrightarrow> out ! k = Some 0"
    by (auto simp: out nth_fill_slice l1)
  have c: "\<forall>k. fst (last (absolute_extrema quick ext)) < k \<and>
          k < (case q_stop quick of None \<Rightarrow> length alt_aal | Some e \<Rightarrow> e) \<and> k < length alt_aal
          \<longrightarrow> out ! k = Some 0"
    by (auto simp: out nth_fill_slice l1)
  have d: "(case q_start quick of None \<Rightarrow> 0 | Some s \<Rightarrow> s) < length alt_aal
          \<longrightarrow> out ! (case q_start quick of None \<Rightarrow> 0 | Some s \<Rightarrow> s) = Some 0"
    using b hd_ge by blast
  have e: "\<forall>a res. shift_alt_std liftoff a = Inr res \<longrightarrow>
          (\<forall>x\<in>set res. \<forall>v. x = Some v \<longrightarrow> 0 \<le> v)"
    using shift_alt_std_nonneg by blast
  from a b c d e show ?thesis by blast
qed

theorem process_section_end_resets_witness:
  "process_section (\<lambda>_. None) 2
     [Some 0, Some 5000, Some 4000, Some 5000, Some 0, Some 20]
     (Some [Some 0, Some 150, Some 2000, Some 2000, Some 0, Some 0])
     \<lparr>q_start = Some 0, q_stop = Some 6\<rparr>
     [(0, 0), (1, 5000), (2, 4000), (3, 5000), (4, 0)]
     [Some 0, Some 0, Some 0, Some 0, Some 0, Some 0]
   = Inr [Some 0, Some 150, Some (- 850), Some 5000, Some 0, Some 0] \<and>
   [Some 0, Some 150, Some (- 850), Some 5000, Some 0, Some (0::real)] ! 0 = Some 0 \<and>
   [Some 0, Some 150, Some (- 850), Some 5000, Some 0, Some (0::real)] ! 5 = Some 0"
proof -
  have ev: "process_section (\<lambda>_. None) 2
     [Some 0, Some 5000, Some 4000, Some 5000, Some 0, Some 20]
     (Some [Some 0, Some 150, Some 2000, Some 2000, Some 0, Some 0])
     \<lparr>q_start = Some 0, q_stop = Some 6\<rparr>
     [(0, 0), (1, 5000), (2, 4000), (3, 5000), (4, 0)]
     [Some 0, Some 0, Some 0, Some 0, Some 0, Some 0]
   = Inr [Some 0, Some 150, Some (- 850), Some 5000, Some 0, Some 0]"
    by (simp add: derive_defs ma_defs aal_defs)
  from process_section_end_resets [OF ev] ev show ?thesis by simp
qed

text \<open>
  C1 as stated fails: a flight over a ridge, with the radio altitude least (150 ft) at the
  first sample of the down and up section and the pressure altitude 1000 ft lower one
  sample later.  The dip is of type \<open>over_gnd\<close> with \<open>low_hb - high_gnd = 150 > 100\<close>, the
  result \<open>alt_std - 4850\<close> is not clamped, and the output at index 2 is -850.  That sample
  comes from the \<open>over_gnd\<close> dip alone and does not depend on the liftoff estimate.
\<close>

theorem derive_negative_height_counterexample:
  "derive (\<lambda>_. None) 2 (\<lambda>_. Some [(0, 0), (1, 5000), (2, 4000), (3, 5000), (4, 0)])
     (Some [Some 0, Some 150, Some 2000, Some 2000, Some 0])
     [Some 0, Some 5000, Some 4000, Some 5000, Some 0]
     [\<lparr>q_start = Some 0, q_stop = Some 5\<rparr>]
   = Inr [Some 0, Some 150, Some (- 850), Some 5000, Some 0]"
  by (simp add: derive_defs ma_defs aal_defs)

text \<open>
  C2 (amended).  When the loop that builds the dips of a \<open>Fast\<close> section finds a peak where
  the data should dip, the \<open>ValueError\<close> it raises leaves \<open>AltitudeAAL.derive\<close>: whatever
  sections were processed before it, and whatever sections follow, \<open>derive\<close> ends with the
  exception and gives no output.
\<close>

theorem derive_value_error_escapes:
  assumes "\<forall>q\<in>set pre. \<not> (q_start q = None \<and> q_stop q = None)"
    and "derive_loop liftoff thr cycle_finder alt_std alt_rad pre (np_ma_zeros_like alt_std) = Inr a1"
    and "\<not> (q_start quick = None \<and> q_stop quick = None)"
    and "cycle_finder (get_slice alt_std (q_slice quick)) = Some ext"
    and "build_dips quick alt_std alt_rad (absolute_extrema quick ext) 0 [] = Inl ValueError"
  shows "derive liftoff thr cycle_finder alt_rad alt_std (pre @ quick # post) = Inl ValueError"
  using assms(3,4) process_section_ValueError [OF assms(5)]
  by (simp add: derive_def derive_loop_append [OF assms(1,2)])


theorem derive_value_error_escapes_witness:
  "derive (\<lambda>_. None) 2
     (\<lambda>a. if a = [Some 0, Some 5000, Some 4000, Some 5000, Some 0]
          then Some [(0, 0), (1, 5000), (2, 4000), (3, 5000), (4, 0)]
          else Some [(0, 5000), (1, 4000), (2, 3000), (3, 4000)])
     None
     [Some 0, Some 5000, Some 4000, Some 5000, Some 0, Some 5000, Some 4000, Some 3000, Some 4000]
     ([\<lparr>q_start = Some 0, q_stop = Some 5\<rparr>] @ \<lparr>q_start = Some 5, q_stop = Some 9\<rparr> # [])
   = Inl ValueError"
proof -
  let ?cf = "\<lambda>a. if a = [Some 0, Some 5000, Some 4000, Some 5000, Some 0]
          then Some [(0::nat, 0::real), (1, 5000), (2, 4000), (3, 5000), (4, 0)]
          else Some [(0, 5000), (1, 4000), (2, 3000), (3, 4000)]"
  let ?A = "[Some 0, Some 5000, Some 4000, Some 5000, Some 0, Some 5000, Some 4000, Some 3000,
             Some (4000::real)]"
  have h1: "\<forall>q\<in>set [\<lparr>q_start = Some 0, q_stop = Some 5\<rparr>].
      \<not> (q_start q = None \<and> q_stop q = None)" by simp
  have h2: "derive_loop (\<lambda>_. None) 2 ?cf ?A None [\<lparr>q_start = Some 0, q_stop = Some 5\<rparr>]
      (np_ma_zeros_like ?A)
      = Inr [Some 0, Some 5000, Some 4000, Some 5000, Some 0, Some 5000, Some 0, Some 0, Some 0]"
    by (simp add: derive_defs ma_defs aal_defs)
  have h3: "\<not> (q_start \<lparr>q_start = Some 5, q_stop = Some 9\<rparr> = None \<and>
      q_stop \<lparr>q_start = Some 5, q_stop = Some 9\<rparr> = None)" by simp
  have h4: "?cf (get_slice ?A (q_slice \<lparr>q_start = Some 5, q_stop = Some 9\<rparr>))
      = Some [(0, 5000), (1, 4000), (2, 3000), (3, 4000)]"
    by (simp add: derive_defs)
  have h5: "build_dips \<lparr>q_start = Some 5, q_stop = Some 9\<rparr> ?A None
      (absolute_extrema \<lparr>q_start = Some 5, q_stop = Some 9\<rparr>
         [(0, 5000), (1, 4000), (2, 3000), (3, 4000)]) 0 [] = Inl ValueError"
    by (simp add: derive_defs)
  from derive_value_error_escapes [OF h1 h2 h3 h4 h5] show ?thesis .
qed

text \<open>
  C2 as stated fails: two \<open>Fast\<close> sections, the first with a peak where a trough is
  expected, the second a regular flight.  \<open>derive\<close> ends with \<open>ValueError\<close>: the second
  section is not processed and no output is produced.
\<close>

theorem derive_fault_aborts_flight_counterexample:
  "derive (\<lambda>_. None) 2
     (\<lambda>a. if a = [Some 5000, Some 4000, Some 3000, Some 4000]
          then Some [(0, 5000), (1, 4000), (2, 3000), (3, 4000)]
          else Some [(0, 0), (1, 5000), (2, 4000), (3, 5000), (4, 0)])
     None
     [Some 5000, Some 4000, Some 3000, Some 4000, Some 0, Some 5000, Some 4000, Some 5000, Some 0]
     [\<lparr>q_start = Some 0, q_stop = Some 4\<rparr>, \<lparr>q_start = Some 4, q_stop = Some 9\<rparr>]
   = Inl ValueError"
  by (simp add: derive_defs)

section \<open>Properties of the inertial vertical speed\<close>

text \<open>
  C6 does not hold of the code, whose comment reads "Between 100ft and the ground, replace
  the computed data".  Every descent band also sets all samples from five seconds after
  its end on to zero (\<open>roc[descent.stop+5*hz:] = 0.0\<close>), and the descent bands are processed
  after the climb bands: whatever the integration, the accelerations, the nominal values
  and the climb bands are, the output is 0 at every sample that lies five seconds or more
  after the end of the last descent band.  The last sample of a climb band that follows a
  landing (a touch and go) is such a sample.
\<close>

theorem override_descent_wipes_later_samples:
  "descents = ds @ [d] \<and> snd d + 5 * hz \<le> k \<and> k < length roc \<longrightarrow>
     ground_effect_override integ az_washout hz climbs descents roc ! k = 0"
proof
  assume a: "descents = ds @ [d] \<and> snd d + 5 * hz \<le> k \<and> k < length roc"
  let ?r = "fold (descent_step integ az_washout hz) ds
              (fold (climb_step integ az_washout hz) climbs roc)"
  have l: "length ?r = length roc" by (simp add: length_fold_descent length_fold_climb)
  from a l have "descent_step integ az_washout hz d ?r ! k = 0"
    by (intro descent_step_wipes) simp_all
  with a l show "ground_effect_override integ az_washout hz climbs descents roc ! k = 0"
    by (simp add: ground_effect_override_def)
qed

text \<open>
  The touch and go, at one sample per second: a descent band \<open>(2, 4)\<close> followed by a
  climb band \<open>(9, 11)\<close>, a nominal vertical speed of 5 ft/s (300 fpm) throughout and no
  washed-out acceleration.  The climb band zeroes every sample before index 4
  (\<open>roc[:lift_m5s] = 0.0\<close>), among them the start of the descent band; the descent band
  then zeroes every sample from index 9 on, among them the last sample of the climb band.
  The output is 0 at both anchors.  And for a climb band of one sample
  \<open>np.linspace(0, e, 1)\<close> is \<open>[0]\<close>: the blend adds nothing, and the output at the band's
  sample is the integrated acceleration, 30 fpm where the nominal value is 120 fpm.
\<close>

theorem override_touch_and_go_wipes_anchors:
  "ground_effect_override integrate [0, 0, 0, 0, 0, 0, 0, 0, 0, 0, 0, 0] 1 [(9, 11)] [(2, 4)]
     [5, 5, 5, 5, 5, 5, 5, 5, 5, 5, 5, 5] ! 10 = 0 \<and>
   ground_effect_override integrate [0, 0, 0, 0, 0, 0, 0, 0, 0, 0, 0, 0] 1 [(9, 11)] [(2, 4)]
     [5, 5, 5, 5, 5, 5, 5, 5, 5, 5, 5, 5]
   = [0, 0, 0, 0, 0, 0, 0, 0, 0, 0, 0, 0] \<and>
   [5, 5, 5, 5, 5, 5, 5, 5, 5, 5, 5, 5::real] ! 10 * 60 = 300 \<and>
   [5, 5, 5, 5, 5, 5, 5, 5, 5, 5, 5, 5::real] ! 2 * 60 = 300 \<and>
   ground_effect_override integrate [0, 0, 1, 1, 1, 1, 0, 0, 0, 0, 0, 0] 1 [(2, 3)] [(8, 10)]
     [0, 1, 2, 3, 4, 5, 6, 5, 4, 3, 2, 1] ! 2 = 30 \<and>
   [0, 1, 2, 3, 4, 5, 6, 5, 4, 3, 2, 1::real] ! 2 * 60 = 120"
proof (intro conjI)
  from override_descent_wipes_later_samples
    [where descents = "[(2, 4)]" and ds = "[]" and d = "(2, 4)" and hz = 1 and k = 10
       and roc = "[5, 5, 5, 5, 5, 5, 5, 5, 5, 5, 5, 5]" and integ = integrate
       and az_washout = "[0, 0, 0, 0, 0, 0, 0, 0, 0, 0, 0, 0]" and climbs = "[(9, 11)]"]
  show "ground_effect_override integrate [0, 0, 0, 0, 0, 0, 0, 0, 0, 0, 0, 0] 1 [(9, 11)]
     [(2, 4)] [5, 5, 5, 5, 5, 5, 5, 5, 5, 5, 5, 5] ! 10 = 0"
    by simp
  show "ground_effect_override integrate [0, 0, 0, 0, 0, 0, 0, 0, 0, 0, 0, 0] 1 [(9, 11)]
     [(2, 4)] [5, 5, 5, 5, 5, 5, 5, 5, 5, 5, 5, 5]
   = [0, 0, 0, 0, 0, 0, 0, 0, 0, 0, 0, 0]"
    by (simp add: override_defs)
  show "[5, 5, 5, 5, 5, 5, 5, 5, 5, 5, 5, 5::real] ! 10 * 60 = 300" by simp
  show "[5, 5, 5, 5, 5, 5, 5, 5, 5, 5, 5, 5::real] ! 2 * 60 = 300" by simp
  show "ground_effect_override integrate [0, 0, 1, 1, 1, 1, 0, 0, 0, 0, 0, 0] 1 [(2, 3)]
     [(8, 10)] [0, 1, 2, 3, 4, 5, 6, 5, 4, 3, 2, 1] ! 2 = 30"
    by (simp add: override_defs)
  show "[0, 1, 2, 3, 4, 5, 6, 5, 4, 3, 2, 1::real] ! 2 * 60 = 120" by simp
qed

text \<open>
  What the override does keep, over the reals and for every integration that keeps the
  length of its input: the output at the last sample of the last climb band equals the
  nominal value at that sample (in feet per minute), when that band has at least two
  samples, the climb bands before it end before its last sample, and every descent band
  starts at or after its end; the output at the first sample of the first descent band
  equals the nominal value at that sample, when every climb band ends at or before it and
  the later descent bands start after it.
\<close>

theorem override_anchored_endpoints:
  assumes len: "\<forall>xs. length (integ xs hz) = length xs" and la: "length az_washout = length roc"
  shows
    "(\<forall>cs c. climbs = cs @ [c] \<and> fst c + 2 \<le> snd c \<and> snd c \<le> length roc \<and>
        (\<forall>c'\<in>set cs. fst c' \<le> snd c' \<and> snd c' < snd c) \<and>
        (\<forall>d\<in>set descents. snd c \<le> fst d \<and> fst d \<le> snd d)
      \<longrightarrow> ground_effect_override integ az_washout hz climbs descents roc ! (snd c - 1)
            = roc ! (snd c - 1) * 60) \<and>
     (\<forall>d ds. descents = d # ds \<and> fst d < snd d \<and> fst d < length roc \<and>
        (\<forall>c\<in>set climbs. fst c \<le> snd c \<and> snd c \<le> fst d) \<and>
        (\<forall>d'\<in>set ds. fst d < fst d' \<and> fst d' \<le> snd d')
      \<longrightarrow> ground_effect_override integ az_washout hz climbs descents roc ! (fst d)
            = roc ! (fst d) * 60)"
proof (intro conjI allI impI)
  fix cs c
  assume a: "climbs = cs @ [c] \<and> fst c + 2 \<le> snd c \<and> snd c \<le> length roc \<and>
        (\<forall>c'\<in>set cs. fst c' \<le> snd c' \<and> snd c' < snd c) \<and>
        (\<forall>d\<in>set descents. snd c \<le> fst d \<and> fst d \<le> snd d)"
  define k where "k = snd c - 1"
  from a have k: "k < length roc" and ks: "k < snd c" unfolding k_def by arith+
  define r1 where "r1 = fold (climb_step integ az_washout hz) cs roc"
  have l1: "length r1 = length roc" by (simp add: r1_def)
  have "\<forall>c'\<in>set cs. fst c' \<le> snd c' \<and> snd c' \<le> k" using a by (auto simp: k_def)
  then have e1: "r1 ! k = roc ! k" unfolding r1_def using k by (rule fold_climb_above)
  have e2: "climb_step integ az_washout hz c r1 ! k = r1 ! k"
    unfolding k_def using a climb_step_anchor [where integ = integ and hz = hz and az = az_washout
        and roc = r1 and c = c, OF len] la l1 by simp
  have "\<forall>d\<in>set descents. fst d \<le> snd d \<and> k < fst d" using a ks by auto
  then have e3: "fold (descent_step integ az_washout hz) descents
      (climb_step integ az_washout hz c r1) ! k = climb_step integ az_washout hz c r1 ! k"
    using k l1 by (intro fold_descent_below) simp_all
  have "ground_effect_override integ az_washout hz climbs descents roc ! k = roc ! k * 60"
    using a k e1 e2 e3 by (simp add: ground_effect_override_def r1_def)
  then show "ground_effect_override integ az_washout hz climbs descents roc ! (snd c - 1)
            = roc ! (snd c - 1) * 60" by (simp add: k_def)
next
  fix d ds
  assume a: "descents = d # ds \<and> fst d < snd d \<and> fst d < length roc \<and>
        (\<forall>c\<in>set climbs. fst c \<le> snd c \<and> snd c \<le> fst d) \<and>
        (\<forall>d'\<in>set ds. fst d < fst d' \<and> fst d' \<le> snd d')"
  define r1 where "r1 = fold (climb_step integ az_washout hz) climbs roc"
  have l1: "length r1 = length roc" by (simp add: r1_def)
  from a have k: "fst d < length roc" by simp
  have e1: "r1 ! (fst d) = roc ! (fst d)"
    unfolding r1_def using a k by (intro fold_climb_above) simp_all
  have e2: "descent_step integ az_washout hz d r1 ! (fst d) = r1 ! (fst d)"
    using a descent_step_anchor [where integ = integ and hz = hz and az = az_washout
        and roc = r1 and d = d, OF len] la l1 by simp
  have "\<forall>d'\<in>set ds. fst d' \<le> snd d' \<and> fst d < fst d'" using a by auto
  then have e3: "fold (descent_step integ az_washout hz) ds
      (descent_step integ az_washout hz d r1) ! (fst d)
      = descent_step integ az_washout hz d r1 ! (fst d)"
    using k l1 by (intro fold_descent_below) simp_all
  show "ground_effect_override integ az_washout hz climbs descents roc ! (fst d)
            = roc ! (fst d) * 60"
    using a k e1 e2 e3 by (simp add: ground_effect_override_def r1_def)
qed


theorem override_anchored_endpoints_witness:
  "ground_effect_override integrate [0, 0, 1, 1, 1, 1, 0, 0, 0, 0, 0, 0] 1 [(2, 4)] [(8, 10)]
     [0, 1, 2, 3, 4, 5, 6, 5, 4, 3, 2, 1] ! 3 = 3 * 60 \<and>
   ground_effect_override integrate [0, 0, 1, 1, 1, 1, 0, 0, 0, 0, 0, 0] 1 [(2, 4)] [(8, 10)]
     [0, 1, 2, 3, 4, 5, 6, 5, 4, 3, 2, 1] ! 8 = 4 * 60"
proof -
  let ?az = "[0, 0, 1, 1, 1, 1, 0, 0, 0, 0, 0, 0::real]"
  let ?roc = "[0, 1, 2, 3, 4, 5, 6, 5, 4, 3, 2, 1::real]"
  have L: "\<forall>xs. length (integrate xs 1) = length xs" by simp
  have la: "length ?az = length ?roc" by simp
  note T = override_anchored_endpoints [where integ = integrate and hz = 1 and az_washout = ?az and roc = ?roc
      and climbs = "[(2, 4)]" and descents = "[(8, 10)]", OF L la]
  from T have "\<forall>cs c. [(2, 4)] = cs @ [c] \<and> fst c + 2 \<le> snd c \<and> snd c \<le> length ?roc \<and>
        (\<forall>c'\<in>set cs. fst c' \<le> snd c' \<and> snd c' < snd c) \<and>
        (\<forall>d\<in>set [(8::nat, 10::nat)]. snd c \<le> fst d \<and> fst d \<le> snd d)
      \<longrightarrow> ground_effect_override integrate ?az 1 [(2, 4)] [(8, 10)] ?roc ! (snd c - 1)
            = ?roc ! (snd c - 1) * 60" by (rule conjunct1)
  from this [rule_format, of "[]" "(2, 4)"]
  have a: "ground_effect_override integrate ?az 1 [(2, 4)] [(8, 10)] ?roc ! 3 = 3 * 60"
    by simp
  from T have "\<forall>d ds. [(8, 10)] = d # ds \<and> fst d < snd d \<and> fst d < length ?roc \<and>
        (\<forall>c\<in>set [(2::nat, 4::nat)]. fst c \<le> snd c \<and> snd c \<le> fst d) \<and>
        (\<forall>d'\<in>set ds. fst d < fst d' \<and> fst d' \<le> snd d')
      \<longrightarrow> ground_effect_override integrate ?az 1 [(2, 4)] [(8, 10)] ?roc ! (fst d)
            = ?roc ! (fst d) * 60" by (rule conjunct2)
  from this [rule_format, of "(8, 10)" "[]"]
  have b: "ground_effect_override integrate ?az 1 [(2, 4)] [(8, 10)] ?roc ! 8 = 4 * 60"
    by simp
  from a b show ?thesis by simp
qed

end
